theory Spec2Isabelle
  imports Complex_Main "HOL-Library.Multiset"
begin

section \<open>ApplyRidersToGraph: data model\<close>

text \<open>
  The script runs on Python 2 with NetworkX 1.x (it removes edges from the result of
  \<^verbatim>\<open>G.subgraph\<close>, and reads edges with \<^verbatim>\<open>edges(data=...)\<close>). Node identifiers
  (TPOINT) are integers, a link identifier (TLINK_ID) is an integer or Python's
  \<^verbatim>\<open>None\<close>, lengths and ridership volumes are floats, modelled as reals.
\<close>

type_synonym node = int
type_synonym tlink = "int option"

datatype exn =
    IndexError | KeyError | ZeroDivisionError | UnboundLocalError
  | NetworkXNoPath | NetworkXError | ValueError | AttributeError

text \<open>The attribute dictionary of one edge: \<^verbatim>\<open>link=tlink, cost=cost, total=0\<close>.\<close>

record attrs =
  e_link :: tlink
  e_cost :: real
  e_total :: real

text \<open>
  A Python dictionary whose iteration order matters is an association list with unique
  keys, in the order of their first insertion; \<open>dict_set\<close> is \<^verbatim>\<open>d[k] = v\<close>. Python 2
  iterates a dictionary in the order of its hash table, which for small integer keys is
  increasing order. The order bears on the results through the nodes of the graph, the
  keys of parallel edges and the routes only; the fixtures below insert these in
  increasing order, so that both orders agree on them.
\<close>

fun dict_set :: "'k \<Rightarrow> 'v \<Rightarrow> ('k \<times> 'v) list \<Rightarrow> ('k \<times> 'v) list" where
  "dict_set k v [] = [(k, v)]"
| "dict_set k v ((k', v') # ps) =
     (if k' = k then (k, v) # ps else (k', v') # dict_set k v ps)"

text \<open>
  The adjacency structure of a \<^verbatim>\<open>MultiDiGraph\<close>: \<^verbatim>\<open>succ[u][v][key]\<close> is the attribute
  dictionary of the edge \<open>u \<rightarrow> v\<close> with that key. Every node is a key of the outer
  dictionary.
\<close>

type_synonym keydict = "(nat \<times> attrs) list"
type_synonym adjdict = "(node \<times> keydict) list"
type_synonym graph = "(node \<times> adjdict) list"

text \<open>
  \<^verbatim>\<open>key = len(keydict); while key in keydict: key += 1\<close>, the search of
  \<^verbatim>\<open>add_edge\<close> for an unused integer key.
\<close>

function new_key :: "nat list \<Rightarrow> nat \<Rightarrow> nat" where
  "new_key ks k = (if k \<in> set ks then new_key ks (Suc k) else k)"
  by pat_completeness auto
termination
proof (relation "measure (\<lambda>(ks, k). length (filter (\<lambda>j. k \<le> j) ks))")
  show "wf (measure (\<lambda>(ks, k). length (filter (\<lambda>j. k \<le> j) ks)))"
    by simp
next
  fix ks :: "nat list" and k :: nat
  assume k: "k \<in> set ks"
  have "filter (\<lambda>j. Suc k \<le> j) ks = filter (\<lambda>j. j \<noteq> k) (filter (\<lambda>j. k \<le> j) ks)"
    by (induction ks) auto
  moreover have "k \<in> set (filter (\<lambda>j. k \<le> j) ks)"
    using k by simp
  ultimately have "length (filter (\<lambda>j. Suc k \<le> j) ks) < length (filter (\<lambda>j. k \<le> j) ks)"
    by (metis (mono_tags, lifting) length_filter_less)
  then show "((ks, Suc k), (ks, k)) \<in> measure (\<lambda>(ks, k). length (filter (\<lambda>j. k \<le> j) ks))"
    by simp
qed

definition add_node :: "node \<Rightarrow> graph \<Rightarrow> graph" where
  "add_node n G = (case map_of G n of None \<Rightarrow> G @ [(n, [])] | Some nbrs \<Rightarrow> G)"

definition add_edge :: "graph \<Rightarrow> node \<Rightarrow> node \<Rightarrow> attrs \<Rightarrow> graph" where
  "add_edge G u v a =
     (let G1 = add_node v (add_node u G);
          nbrs = (case map_of G1 u of None \<Rightarrow> [] | Some n \<Rightarrow> n);
          keydict = (case map_of nbrs v of
                       None \<Rightarrow> [(0, a)]
                     | Some kd \<Rightarrow> dict_set (new_key (map fst kd) (length kd)) a kd)
      in dict_set u (dict_set v keydict nbrs) G1)"

text \<open>
  \<^verbatim>\<open>G.edges(...)\<close>: one entry per edge, nodes, neighbours and keys in dictionary order.
\<close>

definition edges :: "graph \<Rightarrow> (node \<times> node \<times> nat \<times> attrs) list" where
  "edges G =
     concat (map (\<lambda>(u, nbrs).
       concat (map (\<lambda>(v, kd). map (\<lambda>(k, a). (u, v, k, a)) kd) nbrs)) G)"

text \<open>\<^verbatim>\<open>G.get_edge_data(u, v)\<close>: the key dictionary of the pair, \<^verbatim>\<open>None\<close> without an edge.\<close>

definition get_edge_data :: "graph \<Rightarrow> node \<Rightarrow> node \<Rightarrow> keydict option" where
  "get_edge_data G u v =
     (case map_of G u of None \<Rightarrow> None | Some nbrs \<Rightarrow> map_of nbrs v)"

section \<open>CreateDirectedMultiGraph\<close>

text \<open>One row of the street cursor: FR_TPOINT, TO_TPOINT, TLINK_ID, CAR_FLOW, ROLL_LEN.\<close>

record segment =
  FR_TPOINT :: "node option"
  TO_TPOINT :: "node option"
  TLINK_ID :: tlink
  CAR_FLOW :: int
  ROLL_LEN :: real

definition edge_attrs :: "tlink \<Rightarrow> real \<Rightarrow> attrs" where
  "edge_attrs lk c = \<lparr>e_link = lk, e_cost = c, e_total = 0\<rparr>"

definition add_segment :: "graph \<Rightarrow> segment \<Rightarrow> graph" where
  "add_segment G row =
     (case (FR_TPOINT row, TO_TPOINT row) of
        (Some ifrom, Some to) \<Rightarrow>
          (let tlink = TLINK_ID row; flow = CAR_FLOW row; cost = ROLL_LEN row in
           if flow = 2 then add_edge G to ifrom (edge_attrs tlink cost)
           else if flow = 1 then add_edge G ifrom to (edge_attrs tlink cost)
           else add_edge (add_edge G ifrom to (edge_attrs tlink cost))
                  to ifrom (edge_attrs tlink cost))
      | _ \<Rightarrow> G)"

definition CreateDirectedMultiGraph :: "segment list \<Rightarrow> graph" where
  "CreateDirectedMultiGraph rows = foldl add_segment [] rows"

text \<open>
  The edges that section 4.1 of the specification asks of one segment record, as triples
  (from, to, attributes): none for a record with a null endpoint; for reverse-only (flow
  code 2) the one edge toNode \<open>\<rightarrow>\<close> fromNode; for forward-only (flow code 1) the one edge
  fromNode \<open>\<rightarrow>\<close> toNode; for any other code both; each edge with the record's link and
  cost and the load 0. This definition follows the specification's words and uses
  nothing of the code's.
\<close>

definition spec_segment_edges :: "segment \<Rightarrow> (node \<times> node \<times> attrs) list" where
  "spec_segment_edges row =
     (case (FR_TPOINT row, TO_TPOINT row) of
        (Some a, Some b) \<Rightarrow>
          (if CAR_FLOW row = 2
           then [(b, a, \<lparr>e_link = TLINK_ID row, e_cost = ROLL_LEN row, e_total = 0\<rparr>)]
           else if CAR_FLOW row = 1
           then [(a, b, \<lparr>e_link = TLINK_ID row, e_cost = ROLL_LEN row, e_total = 0\<rparr>)]
           else [(a, b, \<lparr>e_link = TLINK_ID row, e_cost = ROLL_LEN row, e_total = 0\<rparr>),
                 (b, a, \<lparr>e_link = TLINK_ID row, e_cost = ROLL_LEN row, e_total = 0\<rparr>)])
      | _ \<Rightarrow> [])"

definition edge_triples :: "graph \<Rightarrow> (node \<times> node \<times> attrs) multiset" where
  "edge_triples G = mset (map (\<lambda>(u, v, k, a). (u, v, a)) (edges G))"

section \<open>SubgraphDataLookup and RouteDataLookup\<close>

text \<open>
  \<^verbatim>\<open>dictRouteSegments[route].append(tlink)\<close> over the rows (ROUTE_NUM, TLINK_ID) of the
  route cursor; \<^verbatim>\<open>dictRouteSegments.keys()\<close> is the order of first insertion.
\<close>

fun dict_append :: "'k \<Rightarrow> 'v \<Rightarrow> ('k \<times> 'v list) list \<Rightarrow> ('k \<times> 'v list) list" where
  "dict_append k v [] = [(k, [v])]"
| "dict_append k v ((k', vs) # ps) =
     (if k' = k then (k, vs @ [v]) # ps else (k', vs) # dict_append k v ps)"

definition SubgraphDataLookup :: "(int \<times> tlink) list \<Rightarrow> (int \<times> tlink list) list" where
  "SubgraphDataLookup rows = foldl (\<lambda>d (route, tlink). dict_append route tlink d) [] rows"

text \<open>
  One row of the MetroTool query after the conversions of its fields: \<^verbatim>\<open>int(row[0])\<close>,
  \<^verbatim>\<open>row[1].lower()\<close>, \<^verbatim>\<open>float(row[3])\<close>, \<^verbatim>\<open>int(row[6])\<close>, \<^verbatim>\<open>int(row[7])\<close> and the
  link of \<^verbatim>\<open>row[8]\<close>, \<^verbatim>\<open>None\<close> when it is not a number.
\<close>

record metro_row =
  m_route :: int
  m_dir :: string
  m_seq :: real
  m_ons :: int
  m_offs :: int
  m_tlink :: tlink

type_synonym stop = "tlink \<times> int \<times> int"
type_synonym metrics = "string \<Rightarrow> int \<Rightarrow> (real \<times> stop) list"
type_synonym totals = "string \<Rightarrow> int \<Rightarrow> int \<times> int"

text \<open>
  \<^verbatim>\<open>dictRouteMetrics\<close> and \<^verbatim>\<open>dictRouteTotals\<close> have the two keys \<^verbatim>\<open>'inbound'\<close> and
  \<^verbatim>\<open>'outbound'\<close>, each a \<^verbatim>\<open>defaultdict\<close>: any other direction raises KeyError, a
  missing route reads as no stops and as totals 0.
\<close>

definition dir_keys :: "string list" where
  "dir_keys = [''inbound'', ''outbound'']"

definition add_metro_row :: "metrics \<times> totals \<Rightarrow> metro_row \<Rightarrow> exn + (metrics \<times> totals)" where
  "add_metro_row MT row =
     (let M = fst MT; T = snd MT; route = m_route row; dir = m_dir row in
      if dir \<notin> set dir_keys then Inl KeyError
      else Inr (M(dir := (M dir)(route :=
                   dict_set (m_seq row) (m_tlink row, m_ons row, m_offs row) (M dir route))),
                T(dir := (T dir)(route :=
                   (fst (T dir route) + m_ons row, snd (T dir route) + m_offs row)))))"

fun RouteDataLookup_loop :: "metrics \<times> totals \<Rightarrow> metro_row list \<Rightarrow> exn + (metrics \<times> totals)" where
  "RouteDataLookup_loop MT [] = Inr MT"
| "RouteDataLookup_loop MT (row # rows) =
     (case add_metro_row MT row of
        Inl e \<Rightarrow> Inl e
      | Inr MT' \<Rightarrow> RouteDataLookup_loop MT' rows)"

definition RouteDataLookup :: "metro_row list \<Rightarrow> exn + (metrics \<times> totals)" where
  "RouteDataLookup rows = RouteDataLookup_loop (\<lambda>d r. [], \<lambda>d r. (0, 0)) rows"

section \<open>NodeLookup and CreateSubgraph\<close>

text \<open>
  A \<^verbatim>\<open>defaultdict(tuple)\<close> from link to node pair. A link that is not a key reads as
  the empty tuple, whose index 0 raises IndexError; the key such a read inserts, with the
  empty tuple, reads the same afterwards, so the model leaves the dictionary as it is.
\<close>

type_synonym nodedict = "(tlink \<times> node \<times> node) list"

definition edge_keydict :: "graph \<Rightarrow> node \<Rightarrow> node \<Rightarrow> keydict" where
  "edge_keydict G u v = (case get_edge_data G u v of None \<Rightarrow> [] | Some data \<Rightarrow> data)"

definition NodeLookup :: "graph \<Rightarrow> nodedict" where
  "NodeLookup G =
     foldl (\<lambda>d (u, v, k, a).
              foldl (\<lambda>d (k, a). dict_set (e_link a) (u, v) d) d (edge_keydict G u v))
       [] (edges G)"

definition route_nodes :: "graph \<Rightarrow> tlink list \<Rightarrow> nodedict" where
  "route_nodes G dictRouteLinks =
     foldl (\<lambda>d (u, v, k, a).
              foldl (\<lambda>d (k, a). if e_link a \<in> set dictRouteLinks
                                 then dict_set (e_link a) (u, v) d else d)
                d (edge_keydict G u v))
       [] (edges G)"

text \<open>
  \<^verbatim>\<open>G.subgraph(nbunch)\<close> of NetworkX 1.x: a new graph on the nodes of the bunch that are
  in \<open>G\<close>, with a copy of the key dictionary of every edge of \<open>G\<close> between two of them.
\<close>

definition first_occurrences :: "'a list \<Rightarrow> 'a list" where
  "first_occurrences xs = rev (remdups (rev xs))"

definition subgraph :: "graph \<Rightarrow> node list \<Rightarrow> graph" where
  "subgraph G nbunch =
     (let ns = first_occurrences (filter (\<lambda>n. map_of G n \<noteq> None) nbunch)
      in map (\<lambda>u. (u, filter (\<lambda>(v, kd). v \<in> set ns)
                         (case map_of G u of None \<Rightarrow> [] | Some nbrs \<Rightarrow> nbrs))) ns)"

fun dict_del :: "'k \<Rightarrow> ('k \<times> 'v) list \<Rightarrow> ('k \<times> 'v) list" where
  "dict_del k [] = []"
| "dict_del k ((k', v) # ps) = (if k' = k then ps else (k', v) # dict_del k ps)"

text \<open>
  \<^verbatim>\<open>remove_edge(u, v)\<close> with no key: \<^verbatim>\<open>d.popitem()\<close> on the key dictionary of the pair,
  then the pair is deleted when no key is left. On Python 2 \<^verbatim>\<open>popitem\<close> takes the
  entry in the lowest slot of the hash table, which for the small integer keys here is
  the smallest key, the head of the list.
\<close>

definition remove_edge :: "graph \<Rightarrow> node \<Rightarrow> node \<Rightarrow> exn + graph" where
  "remove_edge H u v =
     (case map_of H u of
        None \<Rightarrow> Inl NetworkXError
      | Some nbrs \<Rightarrow>
          (case map_of nbrs v of
             None \<Rightarrow> Inl NetworkXError
           | Some d \<Rightarrow>
               (let d' = tl d in
                if d' = [] then Inr (dict_set u (dict_del v nbrs) H)
                else Inr (dict_set u (dict_set v d' nbrs) H))))"

fun remove_extraneous ::
  "tlink list \<Rightarrow> (node \<times> node \<times> nat \<times> attrs) list \<Rightarrow> graph \<Rightarrow> exn + graph" where
  "remove_extraneous dictRouteLinks [] H = Inr H"
| "remove_extraneous dictRouteLinks ((u, v, k, a) # es) H =
     (if e_link a \<notin> set dictRouteLinks then
        (case remove_edge H u v of
           Inl e \<Rightarrow> Inl e
         | Inr H' \<Rightarrow> remove_extraneous dictRouteLinks es H')
      else remove_extraneous dictRouteLinks es H)"

definition CreateSubgraph ::
  "graph \<Rightarrow> int \<Rightarrow> (int \<times> tlink list) list \<Rightarrow> exn + (tlink list \<times> nodedict \<times> graph)" where
  "CreateSubgraph G r dictRouteSegments =
     (let dictRouteLinks = (case map_of dictRouteSegments r of None \<Rightarrow> [] | Some ls \<Rightarrow> ls);
          dictRouteNodes = route_nodes G dictRouteLinks;
          lstNodes = concat (map (\<lambda>(l, u, v). [u, v]) dictRouteNodes);
          H = subgraph G lstNodes
      in case remove_extraneous dictRouteLinks (edges H) H of
           Inl e \<Rightarrow> Inl e
         | Inr H' \<Rightarrow> Inr (dictRouteLinks, dictRouteNodes, H'))"

section \<open>Shortest paths\<close>

text \<open>
  \<^verbatim>\<open>nx.shortest_path(G, source, target, weight='cost')\<close> is Dijkstra's algorithm of
  NetworkX 1.x. The weight of a pair of nodes is the least cost of its parallel edges.
  The fringe is a heap of triples (distance, counter, node); the counter grows with every
  push, so the heap always yields the least distance and, among equal distances, the
  earliest push: the model keeps the fringe sorted by (distance, counter).
\<close>

definition get_weight :: "keydict \<Rightarrow> exn + real" where
  "get_weight data =
     (case data of
        [] \<Rightarrow> Inl ValueError
      | (k, a) # rest \<Rightarrow> Inr (foldl min (e_cost a) (map (\<lambda>(k, a). e_cost a) rest)))"

fun push :: "real \<times> nat \<times> node \<Rightarrow> (real \<times> nat \<times> node) list \<Rightarrow> (real \<times> nat \<times> node) list" where
  "push x [] = [x]"
| "push x (y # ys) =
     (if fst x < fst y \<or> (fst x = fst y \<and> fst (snd x) < fst (snd y))
      then x # y # ys else y # push x ys)"

record dijkstra_state =
  d_seen :: "node \<rightharpoonup> real"
  d_paths :: "node \<rightharpoonup> node list"
  d_count :: nat
  d_fringe :: "(real \<times> nat \<times> node) list"

text \<open>The loop over the neighbours \<open>u\<close> of the node \<open>v\<close> just taken from the fringe.\<close>

fun relax ::
  "node \<Rightarrow> real \<Rightarrow> (node \<rightharpoonup> real) \<Rightarrow> adjdict \<Rightarrow> dijkstra_state \<Rightarrow> exn + dijkstra_state" where
  "relax v dv dists [] s = Inr s"
| "relax v dv dists ((u, e) # nbrs) s =
     (case get_weight e of
        Inl ex \<Rightarrow> Inl ex
      | Inr c \<Rightarrow>
          (let vu_dist = dv + c in
           case dists u of
             Some du \<Rightarrow> if vu_dist < du then Inl ValueError else relax v dv dists nbrs s
           | None \<Rightarrow>
               if (case d_seen s u of None \<Rightarrow> True | Some su \<Rightarrow> vu_dist < su) then
                 (case d_paths s v of
                    None \<Rightarrow> Inl KeyError
                  | Some pv \<Rightarrow>
                      relax v dv dists nbrs
                        (s\<lparr>d_seen := (d_seen s)(u \<mapsto> vu_dist),
                           d_fringe := push (vu_dist, d_count s, u) (d_fringe s),
                           d_count := Suc (d_count s),
                           d_paths := (d_paths s)(u \<mapsto> pv @ [u])\<rparr>))
               else relax v dv dists nbrs s))"

function dijkstra_loop ::
  "graph \<Rightarrow> node \<Rightarrow> (node \<rightharpoonup> real) \<Rightarrow> dijkstra_state \<Rightarrow> exn + (node \<rightharpoonup> node list)" where
  "dijkstra_loop G target dists s =
     (case d_fringe s of
        [] \<Rightarrow> Inr (d_paths s)
      | (d, c, v) # fringe \<Rightarrow>
          (if dists v \<noteq> None then dijkstra_loop G target dists (s\<lparr>d_fringe := fringe\<rparr>)
           else if v = target then Inr (d_paths s)
           else
             (case map_of G v of
                None \<Rightarrow> Inl KeyError
              | Some nbrs \<Rightarrow>
                  (case relax v d (dists(v \<mapsto> d)) nbrs (s\<lparr>d_fringe := fringe\<rparr>) of
                     Inl ex \<Rightarrow> Inl ex
                   | Inr s' \<Rightarrow> dijkstra_loop G target (dists(v \<mapsto> d)) s'))))"
  by pat_completeness auto
termination
proof (relation "measures [\<lambda>(G, target, dists, s). card (fst ` set G - dom dists),
                           \<lambda>(G, target, dists, s). length (d_fringe s)]")
  show "wf (measures [\<lambda>(G, target, dists, s). card (fst ` set G - dom dists),
                      \<lambda>(G, target, dists, s). length (d_fringe s)])"
    by simp
next
  fix G :: graph and target :: node and dists :: "node \<rightharpoonup> real" and s :: dijkstra_state
    and x y z fringe d c v
  assume "d_fringe s = x # fringe"
  then show "((G, target, dists, s\<lparr>d_fringe := fringe\<rparr>), G, target, dists, s)
      \<in> measures [\<lambda>(G, target, dists, s). card (fst ` set G - dom dists),
                   \<lambda>(G, target, dists, s). length (d_fringe s)]"
    by simp
next
  fix G :: graph and target :: node and dists :: "node \<rightharpoonup> real" and s s' :: dijkstra_state
    and v :: node and d :: real and nbrs :: adjdict
  assume nd: "\<not> dists v \<noteq> None" and g: "map_of G v = Some nbrs"
  have fin: "finite (fst ` set G - dom dists)"
    by simp
  have "v \<in> fst ` set G"
    using g by (metis domI dom_map_of_conv_image_fst)
  then have "v \<in> fst ` set G - dom dists"
    using nd by (simp add: domIff)
  moreover have "fst ` set G - dom (dists(v \<mapsto> d)) = (fst ` set G - dom dists) - {v}"
    by auto
  ultimately have "card (fst ` set G - dom (dists(v \<mapsto> d))) < card (fst ` set G - dom dists)"
    using fin by (metis card_Diff1_less)
  then show "((G, target, dists(v \<mapsto> d), s'), G, target, dists, s)
      \<in> measures [\<lambda>(G, target, dists, s). card (fst ` set G - dom dists),
                   \<lambda>(G, target, dists, s). length (d_fringe s)]"
    by simp
qed

text \<open>
  \<^verbatim>\<open>single_source_dijkstra\<close> answers at once when source and target are the same node;
  \<^verbatim>\<open>dijkstra_path\<close> raises NetworkXNoPath when the target has no path.
\<close>

definition shortest_path :: "graph \<Rightarrow> node \<Rightarrow> node \<Rightarrow> exn + node list" where
  "shortest_path G source target =
     (if source = target then Inr [source]
      else
        (case dijkstra_loop G target Map.empty
                \<lparr>d_seen = [source \<mapsto> 0], d_paths = [source \<mapsto> [source]],
                 d_count = 1, d_fringe = [(0, 0, source)]\<rparr> of
           Inl ex \<Rightarrow> Inl ex
         | Inr paths \<Rightarrow>
             (case paths target of None \<Rightarrow> Inl NetworkXNoPath | Some p \<Rightarrow> Inr p)))"

section \<open>GetTLINK\<close>

text \<open>
  The link of one pair of consecutive path nodes. \<^verbatim>\<open>tlink = 0\<close> stands for "no link of
  the route found"; \<^verbatim>\<open>G.get_edge_data\<close> gives \<^verbatim>\<open>None\<close> for a pair without an edge, whose
  \<^verbatim>\<open>keys()\<close> raises AttributeError.
\<close>

definition GetTLINK_pair :: "graph \<Rightarrow> tlink list \<Rightarrow> node \<times> node \<Rightarrow> exn + tlink" where
  "GetTLINK_pair G dictRouteLinks p =
     (case get_edge_data G (fst p) (snd p) of
        None \<Rightarrow> Inl AttributeError
      | Some data \<Rightarrow>
          (let tlink = foldl (\<lambda>tlink (k, a). if e_link a \<in> set dictRouteLinks
                                              then e_link a else tlink) (Some 0) data
           in if tlink = Some 0 then
                (case map_of data 0 of
                   None \<Rightarrow> Inl KeyError
                 | Some a0 \<Rightarrow>
                     Inr (snd (foldl (\<lambda>(cost, tlink) (k, a).
                                        if e_cost a \<le> cost then (e_cost a, e_link a)
                                        else (cost, tlink))
                                 (e_cost a0, tlink) data)))
              else Inr tlink))"

fun GetTLINK_loop :: "graph \<Rightarrow> tlink list \<Rightarrow> (node \<times> node) list \<Rightarrow> exn + tlink list" where
  "GetTLINK_loop G dictRouteLinks [] = Inr []"
| "GetTLINK_loop G dictRouteLinks (p # ps) =
     (case GetTLINK_pair G dictRouteLinks p of
        Inl ex \<Rightarrow> Inl ex
      | Inr tlink \<Rightarrow>
          (case GetTLINK_loop G dictRouteLinks ps of
             Inl ex \<Rightarrow> Inl ex
           | Inr lstLinks \<Rightarrow> Inr (tlink # lstLinks)))"

definition GetTLINK :: "graph \<Rightarrow> node list \<Rightarrow> tlink list \<Rightarrow> exn + tlink list" where
  "GetTLINK G path dictRouteLinks = GetTLINK_loop G dictRouteLinks (zip (butlast path) (tl path))"

section \<open>AdjustRidership\<close>

text \<open>
  \<^verbatim>\<open>float(offs) / total_off\<close> raises ZeroDivisionError on a zero total; floats are
  modelled as reals.
\<close>

definition AdjustRidership :: "int \<Rightarrow> int \<Rightarrow> int \<Rightarrow> int \<Rightarrow> exn + (real \<times> real)" where
  "AdjustRidership ons offs tot_on tot_off =
     (if tot_on > tot_off then
        (let diff = tot_on - tot_off in
         if tot_off = 0 then Inl ZeroDivisionError
         else Inr (of_int ons, of_int offs + of_int diff * (of_int offs / of_int tot_off)))
      else
        (let diff = tot_off - tot_on in
         if tot_on = 0 then Inl ZeroDivisionError
         else Inr (of_int ons + of_int diff * (of_int ons / of_int tot_on), of_int offs)))"

section \<open>RidershipAlgorithm\<close>

text \<open>
  The variables of \<^verbatim>\<open>RidershipAlgorithm\<close> that change while it runs. \<^verbatim>\<open>tlinks\<close> is a local
  variable of the function, unbound until its first assignment and never reset;
  \<^verbatim>\<open>dictRouteNodes\<close> is assigned once per route and by the whole-graph fallback;
  \<^verbatim>\<open>total\<close> is reset to 0 for every direction. The topology, links and costs of \<open>G\<close>
  never change: only the \<^verbatim>\<open>total\<close> attribute of its edges does. The subgraph of a route
  keeps its own key dictionaries and is only read for its nodes and costs.
\<close>

record state =
  s_G :: graph
  s_tlinks :: "tlink list option"
  s_lstBadData :: "(int \<times> string) list"
  s_lstMissingLink :: "(int \<times> string) list"
  s_dictRouteNodes :: nodedict
  s_total :: real

text \<open>The variables that are fixed while the stops of one route and direction are walked.\<close>

record env =
  c_r :: int
  c_dir :: string
  c_dictStops :: "(real \<times> stop) list"
  c_total_on :: int
  c_total_off :: int
  c_dictRouteLinks :: "tlink list"
  c_subgraph :: graph
  c_dictAllNodes :: nodedict

text \<open>\<^verbatim>\<open>d[e][0]\<close> on a \<^verbatim>\<open>defaultdict(tuple)\<close>.\<close>

definition node0 :: "nodedict \<Rightarrow> tlink \<Rightarrow> exn + node" where
  "node0 d e = (case map_of d e of None \<Rightarrow> Inl IndexError | Some (u, v) \<Rightarrow> Inr u)"

text \<open>
  The body of either \<^verbatim>\<open>try\<close> block: both node lookups, then the shortest path in the
  given view of the graph and its links; NetworkXNoPath is passed over and leaves
  \<^verbatim>\<open>tlinks\<close> as it was. Any other exception leaves the block.
\<close>

definition find_path ::
  "graph \<Rightarrow> graph \<Rightarrow> nodedict \<Rightarrow> tlink list \<Rightarrow> tlink \<Rightarrow> tlink \<Rightarrow> tlink list option
     \<Rightarrow> exn + tlink list option" where
  "find_path view G d dictRouteLinks eSource eTarget tlinks =
     (case node0 d eSource of
        Inl ex \<Rightarrow> Inl ex
      | Inr source \<Rightarrow>
          (case node0 d eTarget of
             Inl ex \<Rightarrow> Inl ex
           | Inr target \<Rightarrow>
               (case shortest_path view source target of
                  Inl ex \<Rightarrow> if ex = NetworkXNoPath then Inr tlinks else Inl ex
                | Inr path \<Rightarrow>
                    (case GetTLINK G path dictRouteLinks of
                       Inl ex \<Rightarrow> if ex = NetworkXNoPath then Inr tlinks else Inl ex
                     | Inr ls \<Rightarrow> Inr (Some ls)))))"

text \<open>\<^verbatim>\<open>G[u][v][0]['total'] += x\<close>.\<close>

definition add_total :: "graph \<Rightarrow> node \<Rightarrow> node \<Rightarrow> real \<Rightarrow> exn + graph" where
  "add_total G u v x =
     (case map_of G u of
        None \<Rightarrow> Inl KeyError
      | Some nbrs \<Rightarrow>
          (case map_of nbrs v of
             None \<Rightarrow> Inl KeyError
           | Some kd \<Rightarrow>
               (case map_of kd 0 of
                  None \<Rightarrow> Inl KeyError
                | Some a \<Rightarrow>
                    Inr (dict_set u (dict_set v
                          (dict_set 0 (a\<lparr>e_total := e_total a + x\<rparr>) kd) nbrs) G))))"

text \<open>
  \<^verbatim>\<open>for p in path_nodes[1:len(path_nodes)]: G[p[0]][p[1]][0]['total'] += total\<close>; an
  entry \<open>None\<close> is the empty tuple that \<^verbatim>\<open>dictAllNodes\<close> gives for an unknown link.
\<close>

fun add_path :: "graph \<Rightarrow> (node \<times> node) option list \<Rightarrow> real \<Rightarrow> exn + graph" where
  "add_path G [] x = Inr G"
| "add_path G (None # ps) x = Inl IndexError"
| "add_path G (Some (u, v) # ps) x =
     (case add_total G u v x of
        Inl ex \<Rightarrow> Inl ex
      | Inr G' \<Rightarrow> add_path G' ps x)"

text \<open>
  The second half of the loop body: the source link is put in front of \<^verbatim>\<open>tlinks\<close> when
  it is missing, the last link is dropped when the target link occurs, the stop's counts
  are adjusted and the running total is added to the source edge and to the edges of the
  rest of the path. The two branches on \<^verbatim>\<open>i == 0\<close> differ in the first line only.
\<close>

definition apportion ::
  "env \<Rightarrow> nat \<Rightarrow> tlink \<Rightarrow> int \<Rightarrow> int \<Rightarrow> tlink \<Rightarrow> state \<Rightarrow> exn + state" where
  "apportion c i eSource ons offs eTarget st =
     (case s_tlinks st of
        None \<Rightarrow> Inl UnboundLocalError
      | Some tlinks0 \<Rightarrow>
          (let tlinks1 = (if eSource \<notin> set tlinks0 then eSource # tlinks0 else tlinks0);
               tlinks = (if eTarget \<in> set tlinks1 then butlast tlinks1 else tlinks1);
               path_nodes = map (map_of (c_dictAllNodes c)) tlinks
           in case AdjustRidership ons offs (c_total_on c) (c_total_off c) of
                Inl ex \<Rightarrow> Inl ex
              | Inr (adjusted_ons, adjusted_offs) \<Rightarrow>
                  (let total1 = (if i = 0 then s_total st + adjusted_ons + adjusted_offs
                                 else s_total st + adjusted_ons)
                   in case map_of (s_dictRouteNodes st) eSource of
                        None \<Rightarrow> Inl IndexError
                      | Some (u, v) \<Rightarrow>
                          (case add_total (s_G st) u v total1 of
                             Inl ex \<Rightarrow> Inl ex
                           | Inr G1 \<Rightarrow>
                               (let bad = (total1 < adjusted_offs);
                                    total2 = (if bad then
                                                (if c_total_on c > c_total_off c
                                                 then of_int (c_total_on c)
                                                 else of_int (c_total_off c))
                                              else total1 - adjusted_offs)
                                in case add_path G1 (tl path_nodes) total2 of
                                     Inl ex \<Rightarrow> Inl ex
                                   | Inr G2 \<Rightarrow>
                                       Inr (st\<lparr>s_G := G2,
                                               s_tlinks := Some tlinks,
                                               s_lstBadData :=
                                                 (if bad then s_lstBadData st @ [(c_r c, c_dir c)]
                                                  else s_lstBadData st),
                                               s_total := total2\<rparr>))))))"

text \<open>
  One pass of the loop over the stops, for stop number \<open>i\<close> with sequence value \<open>s\<close> and
  its successor \<open>s_next\<close>. The result carries \<open>True\<close> when the pass ends in \<^verbatim>\<open>break\<close>.
\<close>

definition stop_step :: "env \<Rightarrow> nat \<times> real \<times> real \<Rightarrow> state \<Rightarrow> exn + (bool \<times> state)" where
  "stop_step c isn st =
     (case map_of (c_dictStops c) (fst (snd isn)) of
        None \<Rightarrow> Inl IndexError
      | Some (eSource, ons, offs) \<Rightarrow>
          (case map_of (c_dictStops c) (snd (snd isn)) of
             None \<Rightarrow> Inl IndexError
           | Some (eTarget, ons_next, offs_next) \<Rightarrow>
               (case find_path (c_subgraph c) (s_G st) (s_dictRouteNodes st)
                       (c_dictRouteLinks c) eSource eTarget (s_tlinks st) of
                  Inr tlinks \<Rightarrow>
                    (case apportion c (fst isn) eSource ons offs eTarget
                            (st\<lparr>s_tlinks := tlinks\<rparr>) of
                       Inl ex \<Rightarrow> Inl ex
                     | Inr st' \<Rightarrow> Inr (False, st'))
                | Inl ex \<Rightarrow>
                    if ex = IndexError \<or> ex = KeyError then
                      (case find_path (s_G st) (s_G st) (c_dictAllNodes c)
                              (c_dictRouteLinks c) eSource eTarget (s_tlinks st) of
                         Inr tlinks \<Rightarrow>
                           (case apportion c (fst isn) eSource ons offs eTarget
                                   (st\<lparr>s_dictRouteNodes := c_dictAllNodes c,
                                       s_tlinks := tlinks\<rparr>) of
                              Inl ex' \<Rightarrow> Inl ex'
                            | Inr st' \<Rightarrow> Inr (False, st'))
                       | Inl ex' \<Rightarrow>
                           if ex' = IndexError then
                             Inr (True, st\<lparr>s_dictRouteNodes := c_dictAllNodes c,
                                          s_lstMissingLink :=
                                            s_lstMissingLink st @ [(c_r c, c_dir c)]\<rparr>)
                           else Inl ex')
                    else Inl ex)))"

fun stops_loop :: "env \<Rightarrow> (nat \<times> real \<times> real) list \<Rightarrow> state \<Rightarrow> exn + state" where
  "stops_loop c [] st = Inr st"
| "stops_loop c (isn # rest) st =
     (case stop_step c isn st of
        Inl ex \<Rightarrow> Inl ex
      | Inr (brk, st') \<Rightarrow> if brk then Inr st' else stops_loop c rest st')"

text \<open>
  \<^verbatim>\<open>enumerate(lstStops[0:len(lstStops) - 1])\<close>, each stop with its index and with
  \<^verbatim>\<open>lstStops[i + 1]\<close>.
\<close>

definition stop_pairs :: "real list \<Rightarrow> (nat \<times> real \<times> real) list" where
  "stop_pairs lstStops = zip [0..<length lstStops - 1] (zip (butlast lstStops) (tl lstStops))"

definition direction_env ::
  "metrics \<Rightarrow> totals \<Rightarrow> nodedict \<Rightarrow> int \<Rightarrow> tlink list \<Rightarrow> graph \<Rightarrow> string \<Rightarrow> env" where
  "direction_env M T dictAllNodes r dictRouteLinks sub dir =
     \<lparr>c_r = r, c_dir = dir, c_dictStops = M dir r,
      c_total_on = fst (T dir r), c_total_off = snd (T dir r),
      c_dictRouteLinks = dictRouteLinks, c_subgraph = sub, c_dictAllNodes = dictAllNodes\<rparr>"

fun directions_loop ::
  "metrics \<Rightarrow> totals \<Rightarrow> nodedict \<Rightarrow> int \<Rightarrow> tlink list \<Rightarrow> graph \<Rightarrow> string list \<Rightarrow> state
     \<Rightarrow> exn + state" where
  "directions_loop M T dictAllNodes r dictRouteLinks sub [] st = Inr st"
| "directions_loop M T dictAllNodes r dictRouteLinks sub (dir # dirs) st =
     (case stops_loop (direction_env M T dictAllNodes r dictRouteLinks sub dir)
             (stop_pairs (sort (map fst (M dir r)))) (st\<lparr>s_total := 0\<rparr>) of
        Inl ex \<Rightarrow> Inl ex
      | Inr st' \<Rightarrow> directions_loop M T dictAllNodes r dictRouteLinks sub dirs st')"

fun routes_loop ::
  "(int \<times> tlink list) list \<Rightarrow> metrics \<Rightarrow> totals \<Rightarrow> nodedict \<Rightarrow> int list \<Rightarrow> state
     \<Rightarrow> exn + state" where
  "routes_loop dictRouteSegments M T dictAllNodes [] st = Inr st"
| "routes_loop dictRouteSegments M T dictAllNodes (r # rs) st =
     (case CreateSubgraph (s_G st) r dictRouteSegments of
        Inl ex \<Rightarrow> Inl ex
      | Inr (dictRouteLinks, dictRouteNodes, sub) \<Rightarrow>
          (case directions_loop M T dictAllNodes r dictRouteLinks sub dir_keys
                  (st\<lparr>s_dictRouteNodes := dictRouteNodes\<rparr>) of
             Inl ex \<Rightarrow> Inl ex
           | Inr st' \<Rightarrow> routes_loop dictRouteSegments M T dictAllNodes rs st'))"

definition initial_state :: "graph \<Rightarrow> state" where
  "initial_state G0 =
     \<lparr>s_G = G0, s_tlinks = None, s_lstBadData = [], s_lstMissingLink = [],
      s_dictRouteNodes = [], s_total = 0\<rparr>"

text \<open>
  The inputs are the rows of the three cursors; an exception anywhere ends the run with
  \<^verbatim>\<open>SystemExit\<close>, the result \<open>Inl\<close>.
\<close>

definition RidershipAlgorithm ::
  "segment list \<Rightarrow> (int \<times> tlink) list \<Rightarrow> metro_row list
     \<Rightarrow> exn + (graph \<times> (int \<times> string) list \<times> (int \<times> string) list)" where
  "RidershipAlgorithm streets routes query =
     (let G0 = CreateDirectedMultiGraph streets;
          dictRouteSegments = SubgraphDataLookup routes
      in case RouteDataLookup query of
           Inl ex \<Rightarrow> Inl ex
         | Inr (M, T) \<Rightarrow>
             (case routes_loop dictRouteSegments M T (NodeLookup G0)
                     (map fst dictRouteSegments) (initial_state G0) of
                Inl ex \<Rightarrow> Inl ex
              | Inr st \<Rightarrow> Inr (s_G st, s_lstBadData st, s_lstMissingLink st)))"

section \<open>main: the ridership of every link\<close>

text \<open>
  \<^verbatim>\<open>dd[data[k]['link']] = data[k]['total']\<close> for every edge and every key of its pair
  of nodes, in the order of \<^verbatim>\<open>G.edges\<close>.
\<close>

definition ledger :: "graph \<Rightarrow> (tlink \<times> real) list" where
  "ledger G =
     foldl (\<lambda>dd (u, v, k, a).
              foldl (\<lambda>dd (k, a). dict_set (e_link a) (e_total a) dd) dd (edge_keydict G u v))
       [] (edges G)"

definition main ::
  "segment list \<Rightarrow> (int \<times> tlink) list \<Rightarrow> metro_row list \<Rightarrow> exn + (tlink \<times> real) list" where
  "main streets routes query =
     (case RidershipAlgorithm streets routes query of
        Inl ex \<Rightarrow> Inl ex
      | Inr (G, lstBadData, lstMissingLink) \<Rightarrow> Inr (ledger G))"

text \<open>
  The update cursor then writes, for a street row with link \<open>l\<close>, \<^verbatim>\<open>dd[l]\<close> when \<open>l\<close> is a
  key of \<^verbatim>\<open>dd\<close> and 0 otherwise.
\<close>

definition riders :: "(tlink \<times> real) list \<Rightarrow> tlink \<Rightarrow> real" where
  "riders dd l = (case map_of dd l of None \<Rightarrow> 0 | Some x \<Rightarrow> x)"

definition main_riders ::
  "segment list \<Rightarrow> (int \<times> tlink) list \<Rightarrow> metro_row list \<Rightarrow> tlink \<Rightarrow> exn + real" where
  "main_riders streets routes query l =
     (case main streets routes query of
        Inl ex \<Rightarrow> Inl ex
      | Inr dd \<Rightarrow> Inr (riders dd l))"

section \<open>Auxiliary notions for the properties\<close>

text \<open>The edges of one pair of nodes and of one node, as \<open>edges\<close> lists them.\<close>

definition pair_edges :: "node \<Rightarrow> node \<times> keydict \<Rightarrow> (node \<times> node \<times> nat \<times> attrs) list" where
  "pair_edges u vkd = map (\<lambda>(k, a). (u, fst vkd, k, a)) (snd vkd)"

definition node_edges :: "node \<times> adjdict \<Rightarrow> (node \<times> node \<times> nat \<times> attrs) list" where
  "node_edges un = concat (map (pair_edges (fst un)) (snd un))"

text \<open>
  The two ways of section 4.6 of the specification to settle the link of a pair of path
  nodes among its parallel edges \<open>data\<close>: some edge has a link of the route, or the link
  is that of an edge of least cost.
\<close>

definition has_route_link :: "keydict \<Rightarrow> tlink list \<Rightarrow> bool" where
  "has_route_link data dictRouteLinks = (\<exists>ka \<in> set data. e_link (snd ka) \<in> set dictRouteLinks)"

definition is_min_cost_link :: "keydict \<Rightarrow> tlink \<Rightarrow> bool" where
  "is_min_cost_link data l =
     (\<exists>ka \<in> set data. e_link (snd ka) = l \<and> (\<forall>kb \<in> set data. e_cost (snd ka) \<le> e_cost (snd kb)))"

text \<open>
  What the specification asks of the link \<open>l\<close> chosen for the pair \<open>p\<close>: a link of the
  route, carried by one of the parallel edges, whenever there is one; a link of least
  cost otherwise.
\<close>

definition chosen_link_ok :: "graph \<Rightarrow> tlink list \<Rightarrow> node \<times> node \<Rightarrow> tlink \<Rightarrow> bool" where
  "chosen_link_ok G dictRouteLinks p l =
     (let data = edge_keydict G (fst p) (snd p) in
      if has_route_link data dictRouteLinks
      then l \<in> set dictRouteLinks \<and> (\<exists>ka \<in> set data. e_link (snd ka) = l)
      else is_min_cost_link data l)"

text \<open>
  The topology of a graph: its nodes, pairs and keys with the link and cost of every
  edge, without the loads. \<open>joined G p\<close>: the pair \<open>p\<close> of nodes has an edge in \<open>G\<close>.
  \<open>keys0 G\<close>: every pair of nodes that has an edge has an edge with key 0.
\<close>

definition topology :: "graph \<Rightarrow> (node \<times> (node \<times> (nat \<times> tlink \<times> real) list) list) list" where
  "topology G =
     map (\<lambda>(u, nbrs). (u, map (\<lambda>(v, kd). (v, map (\<lambda>(k, a). (k, e_link a, e_cost a)) kd)) nbrs)) G"

definition joined :: "graph \<Rightarrow> node \<times> node \<Rightarrow> bool" where
  "joined G p = (get_edge_data G (fst p) (snd p) \<noteq> None)"

definition keys0 :: "graph \<Rightarrow> bool" where
  "keys0 G = (\<forall>u v kd. get_edge_data G u v = Some kd \<longrightarrow> map_of kd 0 \<noteq> None)"

text \<open>The pair has an edge with key 0 in \<open>G\<close>.\<close>

definition has_edge0 :: "graph \<Rightarrow> node \<times> node \<Rightarrow> bool" where
  "has_edge0 G p =
     (case get_edge_data G (fst p) (snd p) of None \<Rightarrow> False | Some data \<Rightarrow> map_of data 0 \<noteq> None)"

text \<open>
  \<open>loads_le G G'\<close>: the two graphs have the same nodes, pairs, keys, links and costs in
  the same order, and no edge has a smaller \<^verbatim>\<open>total\<close> in \<open>G'\<close> than in \<open>G\<close>.
\<close>

definition attrs_le :: "nat \<times> attrs \<Rightarrow> nat \<times> attrs \<Rightarrow> bool" where
  "attrs_le ka kb =
     (fst ka = fst kb \<and> e_link (snd ka) = e_link (snd kb) \<and> e_cost (snd ka) = e_cost (snd kb)
      \<and> e_total (snd ka) \<le> e_total (snd kb))"

definition keydict_le :: "node \<times> keydict \<Rightarrow> node \<times> keydict \<Rightarrow> bool" where
  "keydict_le a b = (fst a = fst b \<and> list_all2 attrs_le (snd a) (snd b))"

definition adjdict_le :: "node \<times> adjdict \<Rightarrow> node \<times> adjdict \<Rightarrow> bool" where
  "adjdict_le a b = (fst a = fst b \<and> list_all2 keydict_le (snd a) (snd b))"

definition loads_le :: "graph \<Rightarrow> graph \<Rightarrow> bool" where
  "loads_le G G' = list_all2 adjdict_le G G'"

text \<open>
  No stop has a negative count of boardings or alightings, and no total of a route and
  direction is negative.
\<close>

definition stops_nonneg :: "(real \<times> stop) list \<Rightarrow> bool" where
  "stops_nonneg dictStops = list_all (\<lambda>(s, l, ons, offs). 0 \<le> ons \<and> 0 \<le> offs) dictStops"

definition env_nonneg :: "env \<Rightarrow> bool" where
  "env_nonneg c = (0 \<le> c_total_on c \<and> 0 \<le> c_total_off c \<and> stops_nonneg (c_dictStops c))"

definition metrics_nonneg :: "metrics \<Rightarrow> totals \<Rightarrow> bool" where
  "metrics_nonneg M T = (\<forall>d r. 0 \<le> fst (T d r) \<and> 0 \<le> snd (T d r) \<and> stops_nonneg (M d r))"







section \<open>Fixtures\<close>

definition street_row :: "node \<Rightarrow> node \<Rightarrow> int \<Rightarrow> int \<Rightarrow> real \<Rightarrow> segment" where
  "street_row a b l f c =
     \<lparr>FR_TPOINT = Some a, TO_TPOINT = Some b, TLINK_ID = Some l, CAR_FLOW = f, ROLL_LEN = c\<rparr>"

definition query_row :: "int \<Rightarrow> string \<Rightarrow> real \<Rightarrow> int \<Rightarrow> int \<Rightarrow> tlink \<Rightarrow> metro_row" where
  "query_row r d s n f l =
     \<lparr>m_route = r, m_dir = d, m_seq = s, m_ons = n, m_offs = f, m_tlink = l\<rparr>"

text \<open>
  The path A \<open>\<rightarrow>\<close> B \<open>\<rightarrow>\<close> C of section 8 of the specification: nodes 1, 2, 3, the one-way
  links 101 (A to B) and 102 (B to C) of cost 1, both on route 7, and two inbound stops.
\<close>

definition abc_streets :: "segment list" where
  "abc_streets = [street_row 1 2 101 1 1, street_row 2 3 102 1 1]"

definition abc_routes :: "(int \<times> tlink) list" where
  "abc_routes = [(7, Some 101), (7, Some 102)]"

definition abc_query :: "metro_row list" where
  "abc_query = [query_row 7 ''inbound'' 1 10 0 (Some 101),
                query_row 7 ''inbound'' 2 0 10 (Some 102)]"

text \<open>
  Three parallel one-way streets from node 1 to node 2; links 101 and 102 are on route 7,
  link 999 is not.
\<close>

definition parallel_streets :: "segment list" where
  "parallel_streets = [street_row 1 2 101 1 5, street_row 1 2 999 1 5, street_row 1 2 102 1 5]"

definition parallel_routes :: "(int \<times> tlink) list" where
  "parallel_routes = [(7, Some 101), (7, Some 102)]"

text \<open>
  Two one-way streets that do not meet, both on route 7: no path leads from link 102
  (node 3 to node 4) to link 101 (node 1 to node 2).
\<close>

definition apart_streets :: "segment list" where
  "apart_streets = [street_row 1 2 101 1 1, street_row 3 4 102 1 1]"

definition apart_routes :: "(int \<times> tlink) list" where
  "apart_routes = [(7, Some 101), (7, Some 102)]"

definition apart_query :: "metro_row list" where
  "apart_query = [query_row 7 ''inbound'' 1 10 0 (Some 102),
                  query_row 7 ''inbound'' 2 0 10 (Some 101)]"

text \<open>
  Two parallel one-way streets from node 1 to node 2: link 0, of cost 5, is the only link
  of the route; link 999, of cost 1, is not on it.
\<close>

definition zero_link_streets :: "segment list" where
  "zero_link_streets = [street_row 1 2 0 1 5, street_row 1 2 999 1 1]"

text \<open>
  From node 1 to node 2 the dear link 101 of the route and the cheap link 999; from node
  2 to node 3 the links 201 and 202, neither on the route.
\<close>

definition choice_streets :: "segment list" where
  "choice_streets = [street_row 1 2 101 1 9, street_row 1 2 999 1 1,
                     street_row 2 3 201 1 4, street_row 2 3 202 1 2]"




text \<open>
  Route 7 runs over links 101 and 102, but its second inbound stop is on link 103, a
  street of the graph that is not on the route; its outbound stops are on links 102 and
  103. \<open>detour_M\<close> and \<open>detour_T\<close> are the stops and totals of the query,
  \<open>detour_env\<close> and \<open>detour_state\<close> the variables of the run when it enters the inbound
  stops of route 7.
\<close>

definition detour_streets :: "segment list" where
  "detour_streets = [street_row 1 2 101 1 1, street_row 2 3 102 1 1, street_row 3 4 103 1 1]"

definition detour_routes :: "(int \<times> tlink) list" where
  "detour_routes = [(7, Some 101), (7, Some 102)]"

definition detour_query :: "metro_row list" where
  "detour_query = [query_row 7 ''inbound'' 1 10 0 (Some 101),
                   query_row 7 ''inbound'' 2 0 10 (Some 103),
                   query_row 7 ''outbound'' 1 6 0 (Some 102),
                   query_row 7 ''outbound'' 2 0 6 (Some 103)]"

definition detour_M :: metrics where
  "detour_M d r =
     (if d = ''inbound'' \<and> r = 7 then [(1, (Some 101, 10, 0)), (2, (Some 103, 0, 10))]
      else if d = ''outbound'' \<and> r = 7 then [(1, (Some 102, 6, 0)), (2, (Some 103, 0, 6))]
      else [])"

definition detour_T :: totals where
  "detour_T d r =
     (if d = ''inbound'' \<and> r = 7 then (10, 10)
      else if d = ''outbound'' \<and> r = 7 then (6, 6)
      else (0, 0))"

definition detour_env :: env where
  "detour_env =
     direction_env detour_M detour_T (NodeLookup (CreateDirectedMultiGraph detour_streets)) 7
       [Some 101, Some 102]
       (subgraph (CreateDirectedMultiGraph detour_streets) [1, 2, 2, 3]) ''inbound''"

definition detour_state :: state where
  "detour_state =
     (initial_state (CreateDirectedMultiGraph detour_streets))
       \<lparr>s_dictRouteNodes :=
          route_nodes (CreateDirectedMultiGraph detour_streets) [Some 101, Some 102]\<rparr>"

text \<open>The states of that run after the inbound and after the outbound stops of route 7.\<close>

definition detour_state1 :: state where
  "detour_state1 =
     \<lparr>s_G = [(1, [(2, [(0, \<lparr>e_link = Some 101, e_cost = 1, e_total = 10\<rparr>)])]),
             (2, [(3, [(0, \<lparr>e_link = Some 102, e_cost = 1, e_total = 10\<rparr>)])]),
             (3, [(4, [(0, \<lparr>e_link = Some 103, e_cost = 1, e_total = 0\<rparr>)])]),
             (4, [])],
      s_tlinks = Some [Some 101, Some 102], s_lstBadData = [], s_lstMissingLink = [],
      s_dictRouteNodes = [(Some 101, 1, 2), (Some 102, 2, 3), (Some 103, 3, 4)],
      s_total = 10\<rparr>"

definition detour_state2 :: state where
  "detour_state2 =
     \<lparr>s_G = [(1, [(2, [(0, \<lparr>e_link = Some 101, e_cost = 1, e_total = 10\<rparr>)])]),
             (2, [(3, [(0, \<lparr>e_link = Some 102, e_cost = 1, e_total = 16\<rparr>)])]),
             (3, [(4, [(0, \<lparr>e_link = Some 103, e_cost = 1, e_total = 0\<rparr>)])]),
             (4, [])],
      s_tlinks = Some [Some 102], s_lstBadData = [], s_lstMissingLink = [],
      s_dictRouteNodes = [(Some 101, 1, 2), (Some 102, 2, 3), (Some 103, 3, 4)],
      s_total = 6\<rparr>"

text \<open>
  Four one-way streets in a row, all on route 9. At the second inbound stop 5 riders
  alight although only 2 have boarded, so the running total is replaced by the larger
  total of the direction. \<open>clamp_state1\<close> and \<open>clamp_state2\<close> are the states of the run
  before and after the second pair of stops.
\<close>

definition clamp_streets :: "segment list" where
  "clamp_streets = [street_row 1 2 101 1 1, street_row 2 3 102 1 1,
                    street_row 3 4 103 1 1, street_row 4 5 104 1 1]"

definition clamp_routes :: "(int \<times> tlink) list" where
  "clamp_routes = [(9, Some 101), (9, Some 102), (9, Some 103), (9, Some 104)]"

definition clamp_query :: "metro_row list" where
  "clamp_query = [query_row 9 ''inbound'' 1 2 0 (Some 101),
                  query_row 9 ''inbound'' 2 0 5 (Some 102),
                  query_row 9 ''inbound'' 3 3 0 (Some 104)]"

definition clamp_env :: env where
  "clamp_env =
     \<lparr>c_r = 9, c_dir = ''inbound'',
      c_dictStops = [(1, (Some 101, 2, 0)), (2, (Some 102, 0, 5)), (3, (Some 104, 3, 0))],
      c_total_on = 5, c_total_off = 5,
      c_dictRouteLinks = [Some 101, Some 102, Some 103, Some 104],
      c_subgraph = CreateDirectedMultiGraph clamp_streets,
      c_dictAllNodes = NodeLookup (CreateDirectedMultiGraph clamp_streets)\<rparr>"

definition clamp_state1 :: state where
  "clamp_state1 =
     \<lparr>s_G = [(1, [(2, [(0, \<lparr>e_link = Some 101, e_cost = 1, e_total = 2\<rparr>)])]),
             (2, [(3, [(0, \<lparr>e_link = Some 102, e_cost = 1, e_total = 0\<rparr>)])]),
             (3, [(4, [(0, \<lparr>e_link = Some 103, e_cost = 1, e_total = 0\<rparr>)])]),
             (4, [(5, [(0, \<lparr>e_link = Some 104, e_cost = 1, e_total = 0\<rparr>)])]),
             (5, [])],
      s_tlinks = Some [Some 101], s_lstBadData = [], s_lstMissingLink = [],
      s_dictRouteNodes = [(Some 101, 1, 2), (Some 102, 2, 3), (Some 103, 3, 4), (Some 104, 4, 5)],
      s_total = 2\<rparr>"

definition clamp_state2 :: state where
  "clamp_state2 =
     \<lparr>s_G = [(1, [(2, [(0, \<lparr>e_link = Some 101, e_cost = 1, e_total = 2\<rparr>)])]),
             (2, [(3, [(0, \<lparr>e_link = Some 102, e_cost = 1, e_total = 2\<rparr>)])]),
             (3, [(4, [(0, \<lparr>e_link = Some 103, e_cost = 1, e_total = 5\<rparr>)])]),
             (4, [(5, [(0, \<lparr>e_link = Some 104, e_cost = 1, e_total = 0\<rparr>)])]),
             (5, [])],
      s_tlinks = Some [Some 102, Some 103], s_lstBadData = [(9, ''inbound'')],
      s_lstMissingLink = [],
      s_dictRouteNodes = [(Some 101, 1, 2), (Some 102, 2, 3), (Some 103, 3, 4), (Some 104, 4, 5)],
      s_total = 5\<rparr>"





section \<open>Properties\<close>

subsection \<open>Graph construction\<close>


lemma dict_set_fresh: "map_of al k = None \<Longrightarrow> dict_set k v al = al @ [(k, v)]"
  by (induction al) (auto split: if_splits)

lemma map_of_dict_set: "map_of (dict_set k v d) = (map_of d)(k \<mapsto> v)"
  by (induction d) (auto simp: fun_eq_iff)

lemma dict_set_present_mset:
  "map_of al k = Some old \<Longrightarrow>
   mset (concat (map f (dict_set k v al))) + mset (f (k, old))
     = mset (concat (map f al)) + mset (f (k, v))"
  by (induction al) (auto split: if_splits)

lemma new_key_fresh: "new_key ks k \<notin> set ks"
  by (induction ks k rule: new_key.induct) (metis new_key.simps)

lemma edges_add_node: "edges (add_node n G) = edges G"
  by (simp add: add_node_def edges_def split: option.splits)

lemma map_of_add_node_same: "map_of (add_node n G) n \<noteq> None"
  by (auto simp add: add_node_def map_add_def split: option.splits)

lemma map_of_add_node_other: "map_of G u \<noteq> None \<Longrightarrow> map_of (add_node n G) u \<noteq> None"
  by (auto simp add: add_node_def split: option.splits)

lemma edges_node_edges: "edges G = concat (map node_edges G)"
  unfolding edges_def node_edges_def pair_edges_def
  by (rule arg_cong [where f = concat]) (auto simp: fun_eq_iff intro!: map_cong arg_cong [where f = concat])

lemma mset_node_edges_add:
  "\<exists>k. mset (node_edges (u, dict_set v
            (case map_of nbrs v of None \<Rightarrow> [(0, a)]
             | Some kd \<Rightarrow> dict_set (new_key (map fst kd) (length kd)) a kd) nbrs))
        = mset (node_edges (u, nbrs)) + {#(u, v, k, a)#}"
proof (cases "map_of nbrs v")
  case None
  then show ?thesis
    by (simp add: dict_set_fresh node_edges_def pair_edges_def)
next
  case (Some kd)
  define key where "key = new_key (map fst kd) (length kd)"
  have "key \<notin> set (map fst kd)"
    unfolding key_def by (rule new_key_fresh)
  then have "map_of kd key = None"
    by (simp add: map_of_eq_None_iff)
  then have kd': "dict_set key a kd = kd @ [(key, a)]"
    by (rule dict_set_fresh)
  have "mset (concat (map (pair_edges u) (dict_set v (kd @ [(key, a)]) nbrs)))
          + mset (pair_edges u (v, kd))
        = mset (concat (map (pair_edges u) nbrs)) + mset (pair_edges u (v, kd @ [(key, a)]))"
    using Some by (rule dict_set_present_mset)
  then have "mset (concat (map (pair_edges u) (dict_set v (kd @ [(key, a)]) nbrs)))
        = mset (concat (map (pair_edges u) nbrs)) + {#(u, v, key, a)#}"
    by (simp add: pair_edges_def)
  then show ?thesis
    using Some kd' by (auto simp: node_edges_def key_def)
qed

lemma mset_edges_add_edge:
  "\<exists>k. mset (edges (add_edge G u v a)) = mset (edges G) + {#(u, v, k, a)#}"
proof -
  define G1 where "G1 = add_node v (add_node u G)"
  have e1: "edges G1 = edges G"
    by (simp add: G1_def edges_add_node)
  have "map_of G1 u \<noteq> None"
    unfolding G1_def by (intro map_of_add_node_other map_of_add_node_same)
  then obtain nbrs where nbrs: "map_of G1 u = Some nbrs"
    by auto
  define nbrs' where "nbrs' = dict_set v
            (case map_of nbrs v of None \<Rightarrow> [(0, a)]
             | Some kd \<Rightarrow> dict_set (new_key (map fst kd) (length kd)) a kd) nbrs"
  obtain k where k: "mset (node_edges (u, nbrs')) = mset (node_edges (u, nbrs)) + {#(u, v, k, a)#}"
    unfolding nbrs'_def using mset_node_edges_add by blast
  have "mset (concat (map node_edges (dict_set u nbrs' G1))) + mset (node_edges (u, nbrs))
          = mset (concat (map node_edges G1)) + mset (node_edges (u, nbrs'))"
    using nbrs by (rule dict_set_present_mset)
  then have "mset (edges (dict_set u nbrs' G1)) = mset (edges G) + {#(u, v, k, a)#}"
    using k e1 by (simp add: edges_node_edges)
  moreover have "add_edge G u v a = dict_set u nbrs' G1"
    using nbrs by (simp add: add_edge_def G1_def nbrs'_def Let_def)
  ultimately show ?thesis
    by auto
qed

lemma edge_triples_add_edge:
  "edge_triples (add_edge G u v a) = edge_triples G + {#(u, v, a)#}"
proof -
  obtain k where "mset (edges (add_edge G u v a)) = mset (edges G) + {#(u, v, k, a)#}"
    using mset_edges_add_edge by blast
  then have "image_mset (\<lambda>(u, v, k, a). (u, v, a)) (mset (edges (add_edge G u v a)))
           = image_mset (\<lambda>(u, v, k, a). (u, v, a)) (mset (edges G) + {#(u, v, k, a)#})"
    by simp
  then show ?thesis
    by (simp add: edge_triples_def)
qed

lemma edge_triples_add_segment:
  "edge_triples (add_segment G row) = edge_triples G + mset (spec_segment_edges row)"
  by (simp add: add_segment_def spec_segment_edges_def edge_attrs_def edge_triples_add_edge Let_def
      split: option.splits)

lemma edge_triples_foldl:
  "edge_triples (foldl add_segment G rows)
     = edge_triples G + mset (concat (map spec_segment_edges rows))"
  by (induction rows arbitrary: G) (simp_all add: edge_triples_add_segment)

text \<open>
  C4. Graph construction skips every record with a null endpoint; every other record
  gives exactly one edge toNode \<open>\<rightarrow>\<close> fromNode when its flow code is 2 (reverse only), exactly
  one edge fromNode \<open>\<rightarrow>\<close> toNode when it is 1 (forward only), and exactly the two edges
  fromNode \<open>\<rightarrow>\<close> toNode and toNode \<open>\<rightarrow>\<close> fromNode for any other code; each edge carries the
  record's link and cost and the load 0. As multisets of (from, to, attributes), the
  edges of the graph are those the specification lists for the records.
\<close>

theorem CreateDirectedMultiGraph_edges:
  "edge_triples (CreateDirectedMultiGraph rows) = mset (concat (map spec_segment_edges rows))"
proof -
  have "edge_triples [] = {#}"
    by (simp add: edge_triples_def edges_def)
  then show ?thesis
    by (simp add: CreateDirectedMultiGraph_def edge_triples_foldl)
qed

subsection \<open>AdjustRidership\<close>

text \<open>
  C5. With a nonzero divisor, when the total of boardings exceeds the total of alightings
  AdjustRidership returns the boardings unchanged and
  \<open>offs + (total_on - total_off) * (offs / total_off)\<close>; otherwise it returns
  \<open>ons + (total_off - total_on) * (ons / total_on)\<close> and the alightings unchanged. For
  totals 100 and 80, boardings 10 and alightings 8 it returns 10 and 10.
\<close>

theorem AdjustRidership_formula:
  "(tot_on > tot_off \<and> tot_off \<noteq> 0 \<longrightarrow>
      AdjustRidership ons offs tot_on tot_off
        = Inr (of_int ons, of_int offs + of_int (tot_on - tot_off) * (of_int offs / of_int tot_off)))
   \<and> (\<not> tot_on > tot_off \<and> tot_on \<noteq> 0 \<longrightarrow>
      AdjustRidership ons offs tot_on tot_off
        = Inr (of_int ons + of_int (tot_off - tot_on) * (of_int ons / of_int tot_on), of_int offs))
   \<and> AdjustRidership 10 8 100 80 = Inr (10, 10)"
  by (simp add: AdjustRidership_def Let_def)

theorem AdjustRidership_formula_witness:
  "(100::int) > 80 \<and> (80::int) \<noteq> 0 \<and> AdjustRidership 10 8 100 80 = Inr (10, 8 + 20 * (8 / 80))
   \<and> \<not> (80::int) > 100 \<and> (80::int) \<noteq> 0
   \<and> AdjustRidership 8 10 80 100 = Inr (8 + 20 * (8 / 80), 10)"
  using AdjustRidership_formula [of 80 100 10 8] AdjustRidership_formula [of 100 80 8 10]
  by simp

subsection \<open>The path A, B, C end to end\<close>

text \<open>
  C2, as the specification states it: in the run on the path A \<open>\<rightarrow>\<close> B \<open>\<rightarrow>\<close> C the street
  of link 102 (B to C) would be given 10 riders. It is not.
\<close>

theorem abc_ledger_counterexample:
  "main_riders abc_streets abc_routes abc_query (Some 102) \<noteq> Inr 10"
  by code_simp

text \<open>
  C2, amended: the run on the path A \<open>\<rightarrow>\<close> B \<open>\<rightarrow>\<close> C ends with the ledger
  \<open>{A\<rightarrow>B: 10, B\<rightarrow>C: 0}\<close>. The only pair of stops has its source on link 101; the path
  ends at the from-node of the target link 102, which gets nothing.
\<close>

theorem abc_ledger:
  "main abc_streets abc_routes abc_query = Inr [(Some 101, 10), (Some 102, 0)]"
  by code_simp

subsection \<open>CreateSubgraph on parallel edges\<close>

text \<open>
  C3 at the parallel streets: the subgraph of route 7, whose links are 101 and 102,
  keeps the edge of link 999 and loses the edge of link 101. Every edge with a link
  outside the route removes the first edge of its pair of nodes, whatever its link.
\<close>

theorem CreateSubgraph_parallel:
  "CreateSubgraph (CreateDirectedMultiGraph parallel_streets) 7
       (SubgraphDataLookup parallel_routes)
     = Inr ([Some 101, Some 102],
            [(Some 101, 1, 2), (Some 102, 1, 2)],
            [(1, [(2, [(1, \<lparr>e_link = Some 999, e_cost = 5, e_total = 0\<rparr>),
                       (2, \<lparr>e_link = Some 102, e_cost = 5, e_total = 0\<rparr>)])]),
             (2, [])])"
  by code_simp

subsection \<open>No path for the first pair of stops\<close>

text \<open>
  C7 at the streets that do not meet: the shortest-path search fails for the first
  pair of stops of the run, \<^verbatim>\<open>tlinks\<close> has never been assigned, and the run ends with an
  exception instead of a ledger.
\<close>

theorem RidershipAlgorithm_first_pair_no_path:
  "CreateSubgraph (CreateDirectedMultiGraph apart_streets) 7 (SubgraphDataLookup apart_routes)
     = Inr ([Some 101, Some 102], [(Some 101, 1, 2), (Some 102, 3, 4)],
            CreateDirectedMultiGraph apart_streets)
   \<and> shortest_path (CreateDirectedMultiGraph apart_streets) 3 1 = Inl NetworkXNoPath
   \<and> RidershipAlgorithm apart_streets apart_routes apart_query = Inl UnboundLocalError
   \<and> main apart_streets apart_routes apart_query = Inl UnboundLocalError"
  by code_simp

subsection \<open>GetTLINK\<close>

lemma route_link_fold:
  "foldl (\<lambda>tlink (k, a). if e_link a \<in> set ls then e_link a else tlink) t0 data = r \<Longrightarrow>
   (if has_route_link data ls then r \<in> set ls \<and> (\<exists>ka \<in> set data. e_link (snd ka) = r) else r = t0)"
proof (induction data arbitrary: t0)
  case Nil
  then show ?case by (simp add: has_route_link_def)
next
  case (Cons x xs)
  obtain k a where x: "x = (k, a)" by (cases x)
  have "foldl (\<lambda>tlink (k, a). if e_link a \<in> set ls then e_link a else tlink)
          (if e_link a \<in> set ls then e_link a else t0) xs = r"
    using Cons.prems x by simp
  from Cons.IH [OF this] show ?case
    by (auto simp: has_route_link_def x split: if_splits)
qed

lemma min_cost_fold:
  "foldl (\<lambda>(cost, tlink) (k, a). if e_cost a \<le> cost then (e_cost a, e_link a) else (cost, tlink))
      (c1, t1) data = (c, t) \<Longrightarrow>
   (\<forall>ka \<in> set data. c \<le> e_cost (snd ka)) \<and> c \<le> c1 \<and>
   (if \<exists>ka \<in> set data. e_cost (snd ka) \<le> c1
    then \<exists>ka \<in> set data. e_cost (snd ka) = c \<and> e_link (snd ka) = t
    else (c, t) = (c1, t1))"
proof (induction data arbitrary: c1 t1)
  case Nil
  then show ?case by simp
next
  case (Cons x xs)
  obtain k a where x: "x = (k, a)" by (cases x)
  show ?case
  proof (cases "e_cost a \<le> c1")
    case True
    then have "foldl (\<lambda>(cost, tlink) (k, a). if e_cost a \<le> cost then (e_cost a, e_link a) else (cost, tlink))
      (e_cost a, e_link a) xs = (c, t)"
      using Cons.prems x by simp
    from Cons.IH [OF this] True show ?thesis
      by (auto simp: x split: if_splits)
  next
    case False
    then have "foldl (\<lambda>(cost, tlink) (k, a). if e_cost a \<le> cost then (e_cost a, e_link a) else (cost, tlink))
      (c1, t1) xs = (c, t)"
      using Cons.prems x by simp
    from Cons.IH [OF this] False show ?thesis
      by (auto simp: x split: if_splits)
  qed
qed

lemma GetTLINK_pair_ok:
  assumes "Some 0 \<notin> set ls" and "has_edge0 G p"
  shows "\<exists>l. GetTLINK_pair G ls p = Inr l \<and> chosen_link_ok G ls p l"
proof -
  obtain data a0 where data: "get_edge_data G (fst p) (snd p) = Some data"
    and a0: "map_of data 0 = Some a0"
    using assms(2) by (auto simp: has_edge0_def split: option.splits)
  define r where "r = foldl (\<lambda>tlink (k, a). if e_link a \<in> set ls then e_link a else tlink) (Some 0) data"
  have r: "if has_route_link data ls then r \<in> set ls \<and> (\<exists>ka \<in> set data. e_link (snd ka) = r) else r = Some 0"
    using route_link_fold [of ls "Some 0" data r] r_def by simp
  have kd: "edge_keydict G (fst p) (snd p) = data"
    by (simp add: edge_keydict_def data)
  show ?thesis
  proof (cases "has_route_link data ls")
    case True
    then have "r \<noteq> Some 0" using r assms(1) by auto
    then have "GetTLINK_pair G ls p = Inr r"
      by (simp add: GetTLINK_pair_def data r_def [symmetric] Let_def)
    then show ?thesis
      using True r by (simp add: chosen_link_ok_def kd)
  next
    case False
    then have r0: "r = Some 0" using r by simp
    define res where "res = foldl (\<lambda>(cost, tlink) (k, a).
        if e_cost a \<le> cost then (e_cost a, e_link a) else (cost, tlink)) (e_cost a0, Some 0) data"
    obtain c t where "res = (c, t)"
      by (cases res)
    then have ct: "foldl (\<lambda>(cost, tlink) (k, a). if e_cost a \<le> cost then (e_cost a, e_link a) else (cost, tlink))
      (e_cost a0, Some 0) data = (c, t)"
      by (simp add: res_def)
    have in0: "(0, a0) \<in> set data"
      using a0 by (rule map_of_SomeD)
    then have ex: "\<exists>ka \<in> set data. e_cost (snd ka) \<le> e_cost a0"
      by force
    have "\<exists>ka \<in> set data. e_cost (snd ka) = c \<and> e_link (snd ka) = t"
      using min_cost_fold [OF ct] ex by simp
    moreover have "\<forall>kb \<in> set data. c \<le> e_cost (snd kb)"
      using min_cost_fold [OF ct] by simp
    ultimately have "is_min_cost_link data t"
      unfolding is_min_cost_link_def by blast
    moreover have "GetTLINK_pair G ls p = Inr t"
      using r0 ct by (simp add: GetTLINK_pair_def data r_def [symmetric] Let_def a0)
    ultimately show ?thesis
      using False by (simp add: chosen_link_ok_def kd)
  qed
qed

lemma GetTLINK_loop_ok:
  assumes "Some 0 \<notin> set ls"
  shows "list_all (has_edge0 G) ps \<Longrightarrow>
    \<exists>lstLinks. GetTLINK_loop G ls ps = Inr lstLinks \<and> list_all2 (chosen_link_ok G ls) ps lstLinks"
proof (induction ps)
  case Nil
  then show ?case by simp
next
  case (Cons p ps)
  then obtain l where l: "GetTLINK_pair G ls p = Inr l" "chosen_link_ok G ls p l"
    using GetTLINK_pair_ok [OF assms, of G p] by auto
  from Cons obtain lstLinks where "GetTLINK_loop G ls ps = Inr lstLinks"
     "list_all2 (chosen_link_ok G ls) ps lstLinks"
    by auto
  with l show ?case by simp
qed

lemma get_edge_data_add_node:
  "get_edge_data (add_node n G) u v = get_edge_data G u v"
  by (auto simp: get_edge_data_def add_node_def map_add_def split: option.splits)

lemma keys0D: "keys0 G \<Longrightarrow> get_edge_data G u v = Some kd \<Longrightarrow> map_of kd 0 \<noteq> None"
  unfolding keys0_def by blast

lemma keys0_add_edge:
  assumes "keys0 G"
  shows "keys0 (add_edge G u v a)"
proof -
  define G1 where "G1 = add_node v (add_node u G)"
  have k1: "keys0 G1"
    using assms by (simp add: keys0_def G1_def get_edge_data_add_node)
  define nbrs where "nbrs = (case map_of G1 u of None \<Rightarrow> [] | Some n \<Rightarrow> n)"
  define kd' where "kd' = (case map_of nbrs v of None \<Rightarrow> [(0, a)]
        | Some kd \<Rightarrow> dict_set (new_key (map fst kd) (length kd)) a kd)"
  have eq: "add_edge G u v a = dict_set u (dict_set v kd' nbrs) G1"
    by (simp add: add_edge_def Let_def G1_def nbrs_def kd'_def)
  have ged: "\<And>w kd. map_of nbrs w = Some kd \<Longrightarrow> get_edge_data G1 u w = Some kd"
    by (cases "map_of G1 u") (simp_all add: nbrs_def get_edge_data_def)
  have old: "\<And>w kd. map_of nbrs w = Some kd \<Longrightarrow> map_of kd 0 \<noteq> None"
    using keys0D [OF k1 ged] .
  have new: "map_of kd' 0 \<noteq> None"
  proof (cases "map_of nbrs v")
    case None
    then show ?thesis by (simp add: kd'_def)
  next
    case (Some kd)
    then have "map_of kd 0 \<noteq> None" by (rule old)
    then show ?thesis
      by (simp add: kd'_def Some map_of_dict_set)
  qed
  show ?thesis
    unfolding keys0_def eq
  proof (intro allI impI)
    fix x y kd
    assume g: "get_edge_data (dict_set u (dict_set v kd' nbrs) G1) x y = Some kd"
    show "map_of kd 0 \<noteq> None"
    proof (cases "x = u")
      case True
      then have m: "map_of (dict_set v kd' nbrs) y = Some kd"
        using g by (simp add: get_edge_data_def map_of_dict_set)
      show ?thesis
      proof (cases "y = v")
        case True
        then have "kd = kd'" using m by (simp add: map_of_dict_set)
        then show ?thesis using new by simp
      next
        case False
        then have "map_of nbrs y = Some kd" using m by (simp add: map_of_dict_set)
        then show ?thesis by (rule old)
      qed
    next
      case False
      then have "get_edge_data G1 x y = Some kd"
        using g by (simp add: get_edge_data_def map_of_dict_set)
      then show ?thesis
        using k1 by (rule keys0D [rotated])
    qed
  qed
qed

lemma keys0_add_segment: "keys0 G \<Longrightarrow> keys0 (add_segment G row)"
  by (auto simp: add_segment_def Let_def keys0_add_edge split: option.splits)

lemma keys0_foldl_add_segment: "keys0 G \<Longrightarrow> keys0 (foldl add_segment G rows)"
  by (induction rows arbitrary: G) (simp_all add: keys0_add_segment)

lemma keys0_CreateDirectedMultiGraph: "keys0 (CreateDirectedMultiGraph rows)"
  unfolding CreateDirectedMultiGraph_def
  by (rule keys0_foldl_add_segment) (simp add: keys0_def get_edge_data_def)

lemma map_of_map_snd:
  "map_of (map (\<lambda>(k, v). (k, f v)) al) k = map_option f (map_of al k)"
  by (induction al) auto

lemma topology_keys:
  assumes "topology G = topology G0" and "get_edge_data G u v = Some kd"
  shows "\<exists>kd0. get_edge_data G0 u v = Some kd0 \<and> map fst kd0 = map fst kd"
proof -
  define g where "g = (\<lambda>kd :: keydict. map (\<lambda>(k, a). (k, e_link a, e_cost a)) kd)"
  define f where "f = (\<lambda>nbrs :: adjdict. map (\<lambda>(v, kd). (v, g kd)) nbrs)"
  have top: "\<And>H. topology H = map (\<lambda>(u, nbrs). (u, f nbrs)) H"
    by (simp add: topology_def f_def g_def)
  from assms(2) obtain nbrs where nbrs: "map_of G u = Some nbrs" and kd: "map_of nbrs v = Some kd"
    by (auto simp: get_edge_data_def split: option.splits)
  have "map_of (map (\<lambda>(u, nbrs). (u, f nbrs)) G) u = map_of (map (\<lambda>(u, nbrs). (u, f nbrs)) G0) u"
    using assms(1) unfolding top by simp
  then have "map_option f (map_of G u) = map_option f (map_of G0 u)"
    by (simp only: map_of_map_snd)
  then obtain nbrs0 where nbrs0: "map_of G0 u = Some nbrs0" and fe: "f nbrs0 = f nbrs"
    using nbrs by (cases "map_of G0 u") auto
  have "map_of (map (\<lambda>(v, kd). (v, g kd)) nbrs0) v = map_of (map (\<lambda>(v, kd). (v, g kd)) nbrs) v"
    using fe unfolding f_def by simp
  then have "map_option g (map_of nbrs0 v) = map_option g (map_of nbrs v)"
    by (simp only: map_of_map_snd)
  then obtain kd0 where kd0: "map_of nbrs0 v = Some kd0" and ge: "g kd0 = g kd"
    using kd by (cases "map_of nbrs0 v") auto
  have "map fst (g kd0) = map fst kd0" "map fst (g kd) = map fst kd"
    by (simp_all add: g_def case_prod_beta' comp_def)
  then have "map fst kd0 = map fst kd"
    using ge by simp
  then show ?thesis
    using nbrs0 kd0 by (simp add: get_edge_data_def)
qed

lemma joined_has_edge0:
  assumes "topology G = topology (CreateDirectedMultiGraph streets)" and "joined G p"
  shows "has_edge0 G p"
proof -
  from assms(2) obtain kd where kd: "get_edge_data G (fst p) (snd p) = Some kd"
    by (auto simp: joined_def)
  from topology_keys [OF assms(1) kd] obtain kd0 where
    kd0: "get_edge_data (CreateDirectedMultiGraph streets) (fst p) (snd p) = Some kd0"
    and keys: "map fst kd0 = map fst kd"
    by blast
  have "map_of kd0 0 \<noteq> None"
    using keys0_CreateDirectedMultiGraph kd0 by (rule keys0D)
  then have "0 \<in> set (map fst kd0)"
    by (simp add: map_of_eq_None_iff)
  then have "map_of kd 0 \<noteq> None"
    unfolding keys by (simp add: map_of_eq_None_iff)
  then show ?thesis
    by (simp add: has_edge0_def kd)
qed

text \<open>
  C6, as the specification states it: for every pair of consecutive path nodes the link
  of an edge of the route is chosen whenever a parallel edge has one. With link 0 on the
  route this fails: the pair from node 1 to node 2 has the edge of link 0, which is on the
  route, and GetTLINK answers 999, which is not.
\<close>

theorem GetTLINK_zero_link_counterexample:
  "has_route_link (edge_keydict (CreateDirectedMultiGraph zero_link_streets) 1 2) [Some 0]
   \<and> GetTLINK (CreateDirectedMultiGraph zero_link_streets) [1, 2] [Some 0] = Inr [Some 999]
   \<and> Some 999 \<notin> set [Some (0::int)]"
  by code_simp

text \<open>
  C6, amended: when link 0, the marker of GetTLINK for "no link of the route found", is
  not a link of the route, then on the graph built from the streets, whatever the loads
  of its edges, and for every node path whose consecutive nodes are joined by an edge,
  GetTLINK returns one link per pair; the link is a link of the route,
  carried by a parallel edge of the pair, whenever some parallel edge has a link of the
  route, whatever the costs, and otherwise it is the link of a parallel edge of least
  cost.
\<close>

theorem GetTLINK_prefers_route_links:
  assumes "Some 0 \<notin> set dictRouteLinks"
    and "topology G = topology (CreateDirectedMultiGraph streets)"
    and "list_all (joined G) (zip (butlast path) (tl path))"
  shows "\<exists>lstLinks. GetTLINK G path dictRouteLinks = Inr lstLinks
           \<and> list_all2 (chosen_link_ok G dictRouteLinks) (zip (butlast path) (tl path)) lstLinks"
proof -
  have "list_all (has_edge0 G) (zip (butlast path) (tl path))"
    using assms(3) joined_has_edge0 [OF assms(2)] by (simp add: list_all_iff)
  with assms(1) show ?thesis
    unfolding GetTLINK_def by (rule GetTLINK_loop_ok)
qed

theorem GetTLINK_prefers_route_links_witness:
  "Some 0 \<notin> set [Some (101::int)]
   \<and> list_all (joined (CreateDirectedMultiGraph choice_streets))
         (zip (butlast [1, 2, 3]) (tl [1, 2, 3]))
   \<and> GetTLINK (CreateDirectedMultiGraph choice_streets) [1, 2, 3] [Some 101]
         = Inr [Some 101, Some 202]
   \<and> list_all2 (chosen_link_ok (CreateDirectedMultiGraph choice_streets) [Some 101])
         (zip (butlast [1, 2, 3]) (tl [1, 2, 3])) [Some 101, Some 202]"
proof -
  have h1: "Some 0 \<notin> set [Some (101::int)]"
    by simp
  have h2: "topology (CreateDirectedMultiGraph choice_streets)
              = topology (CreateDirectedMultiGraph choice_streets)"
    by (rule refl)
  have h3: "list_all (joined (CreateDirectedMultiGraph choice_streets))
              (zip (butlast [1, 2, 3]) (tl [1, 2, 3]))"
    by code_simp
  have r: "GetTLINK (CreateDirectedMultiGraph choice_streets) [1, 2, 3] [Some 101]
             = Inr [Some 101, Some 202]"
    by code_simp
  from GetTLINK_prefers_route_links [OF h1 h2 h3] r
  have "list_all2 (chosen_link_ok (CreateDirectedMultiGraph choice_streets) [Some 101])
          (zip (butlast [1, 2, 3]) (tl [1, 2, 3])) [Some 101, Some 202]"
    by auto
  with h1 h3 r show ?thesis
    by blast
qed

subsection \<open>A stop on a link that no street carries\<close>

lemma find_path_absent:
  "map_of d eSource = None \<or> map_of d eTarget = None \<Longrightarrow>
   find_path view G d ls eSource eTarget tlinks = Inl IndexError"
  by (auto simp: find_path_def node0_def split: option.splits sum.splits prod.splits)








subsection \<open>The whole-graph fallback\<close>

lemma apportion_dictRouteNodes:
  "apportion c i eSource ons offs eTarget st = Inr st' \<Longrightarrow>
   s_dictRouteNodes st' = s_dictRouteNodes st"
  by (auto simp: apportion_def Let_def split: option.splits sum.splits prod.splits if_splits)

lemma stop_step_fallback:
  assumes "map_of (c_dictStops c) s = Some (eSource, ons, offs)"
    and "map_of (c_dictStops c) s_next = Some (eTarget, ons_next, offs_next)"
    and "map_of (s_dictRouteNodes st) eSource = None \<or> map_of (s_dictRouteNodes st) eTarget = None"
    and "stop_step c (i, s, s_next) st = Inr (brk, st')"
  shows "s_dictRouteNodes st' = c_dictAllNodes c"
proof -
  have 1: "find_path (c_subgraph c) (s_G st) (s_dictRouteNodes st) (c_dictRouteLinks c)
             eSource eTarget (s_tlinks st) = Inl IndexError"
    using assms(3) by (rule find_path_absent)
  show ?thesis
    using assms(4)
    by (auto simp: stop_step_def assms(1,2) 1 split: sum.splits if_splits
        dest!: apportion_dictRouteNodes)
qed

lemma stop_step_keeps_fallback:
  assumes "s_dictRouteNodes st = c_dictAllNodes c"
    and "stop_step c isn st = Inr (brk, st')"
  shows "s_dictRouteNodes st' = c_dictAllNodes c"
  using assms(2)
  by (auto simp: stop_step_def assms(1) split: sum.splits if_splits option.splits prod.splits
      dest!: apportion_dictRouteNodes)

lemma stops_loop_keeps_fallback:
  "s_dictRouteNodes st = c_dictAllNodes c \<Longrightarrow> stops_loop c ps st = Inr st' \<Longrightarrow>
   s_dictRouteNodes st' = c_dictAllNodes c"
proof (induction ps arbitrary: st)
  case Nil
  then show ?case by simp
next
  case (Cons p ps)
  from Cons.prems(2) obtain brk st1 where step: "stop_step c p st = Inr (brk, st1)"
    and rest: "(if brk then Inr st1 else stops_loop c ps st1) = Inr st'"
    by (auto split: sum.splits)
  have "s_dictRouteNodes st1 = c_dictAllNodes c"
    using Cons.prems(1) step by (rule stop_step_keeps_fallback)
  then show ?case
    using rest Cons.IH by (auto split: if_splits)
qed

lemma directions_loop_keeps_fallback:
  "s_dictRouteNodes st = A \<Longrightarrow> directions_loop M T A r ls sub dirs st = Inr st' \<Longrightarrow>
   s_dictRouteNodes st' = A"
proof (induction dirs arbitrary: st)
  case Nil
  then show ?case by simp
next
  case (Cons dir dirs)
  from Cons.prems(2) obtain st1 where
    loop: "stops_loop (direction_env M T A r ls sub dir) (stop_pairs (sort (map fst (M dir r))))
             (st\<lparr>s_total := 0\<rparr>) = Inr st1"
    and rest: "directions_loop M T A r ls sub dirs st1 = Inr st'"
    by (auto split: sum.splits)
  have "s_dictRouteNodes st1 = c_dictAllNodes (direction_env M T A r ls sub dir)"
    by (rule stops_loop_keeps_fallback [OF _ loop]) (simp add: direction_env_def Cons.prems(1))
  then have "s_dictRouteNodes st1 = A"
    by (simp add: direction_env_def)
  then show ?case
    using rest by (rule Cons.IH)
qed

text \<open>
  C10. When the route-local node lookup fails for a pair of stops (the source or the
  target link is not a key of \<^verbatim>\<open>dictRouteNodes\<close>) and the pass does not end the run, then
  \<^verbatim>\<open>dictRouteNodes\<close> is the whole-graph index \<^verbatim>\<open>dictAllNodes\<close> from then on: at the end of
  this direction's loop over the stops and after every direction of the same route
  processed afterwards. Every pass of the loop that starts with the whole-graph index in
  \<^verbatim>\<open>dictRouteNodes\<close> leaves it there, so all the later node lookups and source-edge
  updates of the route read it. Only the loop over the routes assigns the route-local
  index again, when it has built the subgraph of the next route.
\<close>

theorem whole_graph_index_kept_for_route:
  assumes "map_of (c_dictStops c) s = Some (eSource, ons, offs)"
    and "map_of (c_dictStops c) s_next = Some (eTarget, ons_next, offs_next)"
    and "map_of (s_dictRouteNodes st) eSource = None \<or> map_of (s_dictRouteNodes st) eTarget = None"
    and "stops_loop c ((i, s, s_next) # rest) st = Inr st1"
    and "directions_loop M T (c_dictAllNodes c) r ls sub dirs st1 = Inr st2"
  shows "s_dictRouteNodes st1 = c_dictAllNodes c
       \<and> s_dictRouteNodes st2 = c_dictAllNodes c
       \<and> (\<forall>c' isn st' brk st''.
             s_dictRouteNodes st' = c_dictAllNodes c' \<and> stop_step c' isn st' = Inr (brk, st'')
               \<longrightarrow> s_dictRouteNodes st'' = c_dictAllNodes c')
       \<and> (\<forall>D A r' rs ls' rn' sub'.
             CreateSubgraph (s_G st2) r' D = Inr (ls', rn', sub')
               \<longrightarrow> rn' = route_nodes (s_G st2) ls'
                 \<and> routes_loop D M T A (r' # rs) st2
                     = (case directions_loop M T A r' ls' sub' dir_keys
                               (st2\<lparr>s_dictRouteNodes := rn'\<rparr>) of
                          Inl ex \<Rightarrow> Inl ex
                        | Inr st3 \<Rightarrow> routes_loop D M T A rs st3))"
proof -
  from assms(4) obtain brk st' where step: "stop_step c (i, s, s_next) st = Inr (brk, st')"
    and rest: "(if brk then Inr st' else stops_loop c rest st') = Inr st1"
    by (auto split: sum.splits)
  have "s_dictRouteNodes st' = c_dictAllNodes c"
    using assms(1,2,3) step by (rule stop_step_fallback)
  then have 1: "s_dictRouteNodes st1 = c_dictAllNodes c"
    using rest stops_loop_keeps_fallback [of st' c rest st1] by (auto split: if_splits)
  then have 2: "s_dictRouteNodes st2 = c_dictAllNodes c"
    using assms(5) by (rule directions_loop_keeps_fallback)
  have 3: "\<forall>c' isn st' brk st''.
             s_dictRouteNodes st' = c_dictAllNodes c' \<and> stop_step c' isn st' = Inr (brk, st'')
               \<longrightarrow> s_dictRouteNodes st'' = c_dictAllNodes c'"
    using stop_step_keeps_fallback by blast
  have 4: "\<forall>D A r' rs ls' rn' sub'.
             CreateSubgraph (s_G st2) r' D = Inr (ls', rn', sub')
               \<longrightarrow> rn' = route_nodes (s_G st2) ls'
                 \<and> routes_loop D M T A (r' # rs) st2
                     = (case directions_loop M T A r' ls' sub' dir_keys
                               (st2\<lparr>s_dictRouteNodes := rn'\<rparr>) of
                          Inl ex \<Rightarrow> Inl ex
                        | Inr st3 \<Rightarrow> routes_loop D M T A rs st3)"
    by (auto simp: CreateSubgraph_def Let_def split: sum.splits)
  from 1 2 3 4 show ?thesis
    by blast
qed

theorem whole_graph_index_kept_for_route_witness:
  "map_of (c_dictStops detour_env) 1 = Some (Some 101, 10, 0)
   \<and> map_of (c_dictStops detour_env) 2 = Some (Some 103, 0, 10)
   \<and> map_of (s_dictRouteNodes detour_state) (Some 103) = None
   \<and> stops_loop detour_env [(0, 1, 2)] detour_state = Inr detour_state1
   \<and> directions_loop detour_M detour_T (c_dictAllNodes detour_env) 7 [Some 101, Some 102]
         (c_subgraph detour_env) [''outbound''] detour_state1 = Inr detour_state2
   \<and> s_dictRouteNodes detour_state1 = c_dictAllNodes detour_env
   \<and> s_dictRouteNodes detour_state2 = c_dictAllNodes detour_env
   \<and> CreateSubgraph (s_G detour_state2) 7 (SubgraphDataLookup detour_routes)
         = Inr ([Some 101, Some 102], [(Some 101, 1, 2), (Some 102, 2, 3)],
                [(1, [(2, [(0, \<lparr>e_link = Some 101, e_cost = 1, e_total = 10\<rparr>)])]),
                 (2, [(3, [(0, \<lparr>e_link = Some 102, e_cost = 1, e_total = 16\<rparr>)])]),
                 (3, [])])
   \<and> RidershipAlgorithm detour_streets detour_routes detour_query
         = Inr (s_G detour_state2, [], [])"
proof -
  have h1: "map_of (c_dictStops detour_env) 1 = Some (Some 101, 10, 0)"
    by code_simp
  have h2: "map_of (c_dictStops detour_env) 2 = Some (Some 103, 0, 10)"
    by code_simp
  have h3: "map_of (s_dictRouteNodes detour_state) (Some 103) = None"
    by code_simp
  have h4: "stops_loop detour_env ((0, 1, 2) # []) detour_state = Inr detour_state1"
    by code_simp
  have h5: "directions_loop detour_M detour_T (c_dictAllNodes detour_env) 7 [Some 101, Some 102]
         (c_subgraph detour_env) [''outbound''] detour_state1 = Inr detour_state2"
    by code_simp
  have h6: "CreateSubgraph (s_G detour_state2) 7 (SubgraphDataLookup detour_routes)
         = Inr ([Some 101, Some 102], [(Some 101, 1, 2), (Some 102, 2, 3)],
                [(1, [(2, [(0, \<lparr>e_link = Some 101, e_cost = 1, e_total = 10\<rparr>)])]),
                 (2, [(3, [(0, \<lparr>e_link = Some 102, e_cost = 1, e_total = 16\<rparr>)])]),
                 (3, [])])"
    by code_simp
  have h7: "RidershipAlgorithm detour_streets detour_routes detour_query
         = Inr (s_G detour_state2, [], [])"
    by code_simp
  from whole_graph_index_kept_for_route [OF h1 h2 disjI2 [OF h3] h4 h5]
  have "s_dictRouteNodes detour_state1 = c_dictAllNodes detour_env
      \<and> s_dictRouteNodes detour_state2 = c_dictAllNodes detour_env"
    by blast
  with h1 h2 h3 h4 h5 h6 h7 show ?thesis
    by simp
qed

subsection \<open>Loads only grow\<close>

lemma dict_set_rel:
  "map_of al k = Some v \<Longrightarrow> (\<And>x. R x x) \<Longrightarrow> R (k, v) (k, v') \<Longrightarrow>
   list_all2 R al (dict_set k v' al)"
proof (induction al)
  case Nil
  then show ?case by simp
next
  case (Cons p ps)
  obtain k0 v0 where p: "p = (k0, v0)" by (cases p)
  show ?case
  proof (cases "k0 = k")
    case True
    then have "v0 = v" using Cons.prems(1) p by simp
    then show ?thesis
      using True p Cons.prems(2,3) by (simp add: list_all2_refl)
  next
    case False
    then show ?thesis
      using p Cons by simp
  qed
qed

lemma attrs_le_refl: "attrs_le x x"
  by (simp add: attrs_le_def)

lemma keydict_le_refl: "keydict_le x x"
  by (simp add: keydict_le_def list_all2_refl attrs_le_refl)

lemma adjdict_le_refl: "adjdict_le x x"
  by (simp add: adjdict_le_def list_all2_refl keydict_le_refl)

lemma loads_le_refl: "loads_le G G"
  by (simp add: loads_le_def list_all2_refl adjdict_le_refl)

lemma attrs_le_trans: "attrs_le x y \<Longrightarrow> attrs_le y z \<Longrightarrow> attrs_le x z"
  by (auto simp: attrs_le_def)

lemma keydict_le_trans:
  assumes "keydict_le x y" and "keydict_le y z"
  shows "keydict_le x z"
proof -
  have "list_all2 attrs_le (snd x) (snd z)"
  proof (rule list_all2_trans)
    show "\<And>a b c. attrs_le a b \<Longrightarrow> attrs_le b c \<Longrightarrow> attrs_le a c"
      by (rule attrs_le_trans)
    show "list_all2 attrs_le (snd x) (snd y)"
      using assms(1) by (simp add: keydict_le_def)
    show "list_all2 attrs_le (snd y) (snd z)"
      using assms(2) by (simp add: keydict_le_def)
  qed
  then show ?thesis
    using assms by (simp add: keydict_le_def)
qed

lemma adjdict_le_trans:
  assumes "adjdict_le x y" and "adjdict_le y z"
  shows "adjdict_le x z"
proof -
  have "list_all2 keydict_le (snd x) (snd z)"
  proof (rule list_all2_trans)
    show "\<And>a b c. keydict_le a b \<Longrightarrow> keydict_le b c \<Longrightarrow> keydict_le a c"
      by (rule keydict_le_trans)
    show "list_all2 keydict_le (snd x) (snd y)"
      using assms(1) by (simp add: adjdict_le_def)
    show "list_all2 keydict_le (snd y) (snd z)"
      using assms(2) by (simp add: adjdict_le_def)
  qed
  then show ?thesis
    using assms by (simp add: adjdict_le_def)
qed

lemma loads_le_trans:
  assumes "loads_le G G'" and "loads_le G' G''"
  shows "loads_le G G''"
  unfolding loads_le_def
proof (rule list_all2_trans)
  show "\<And>a b c. adjdict_le a b \<Longrightarrow> adjdict_le b c \<Longrightarrow> adjdict_le a c"
    by (rule adjdict_le_trans)
  show "list_all2 adjdict_le G G'"
    using assms(1) by (simp add: loads_le_def)
  show "list_all2 adjdict_le G' G''"
    using assms(2) by (simp add: loads_le_def)
qed

lemma add_total_loads_le:
  assumes "add_total G u v x = Inr G'" and "0 \<le> x"
  shows "loads_le G G'"
proof -
  from assms(1) obtain nbrs kd a where
    nbrs: "map_of G u = Some nbrs" and kd: "map_of nbrs v = Some kd" and a: "map_of kd 0 = Some a"
    and G': "G' = dict_set u (dict_set v (dict_set 0 (a\<lparr>e_total := e_total a + x\<rparr>) kd) nbrs) G"
    by (auto simp: add_total_def split: option.splits)
  have "attrs_le (0, a) (0, a\<lparr>e_total := e_total a + x\<rparr>)"
    using assms(2) by (simp add: attrs_le_def)
  with a have "list_all2 attrs_le kd (dict_set 0 (a\<lparr>e_total := e_total a + x\<rparr>) kd)"
    by (intro dict_set_rel) (auto simp: attrs_le_refl)
  then have "keydict_le (v, kd) (v, dict_set 0 (a\<lparr>e_total := e_total a + x\<rparr>) kd)"
    by (simp add: keydict_le_def)
  with kd have "list_all2 keydict_le nbrs
      (dict_set v (dict_set 0 (a\<lparr>e_total := e_total a + x\<rparr>) kd) nbrs)"
    by (intro dict_set_rel) (auto simp: keydict_le_refl)
  then have "adjdict_le (u, nbrs)
      (u, dict_set v (dict_set 0 (a\<lparr>e_total := e_total a + x\<rparr>) kd) nbrs)"
    by (simp add: adjdict_le_def)
  with nbrs have "list_all2 adjdict_le G G'"
    unfolding G' by (intro dict_set_rel) (auto simp: adjdict_le_refl)
  then show ?thesis
    by (simp add: loads_le_def)
qed

lemma add_path_loads_le:
  "add_path G ps x = Inr G' \<Longrightarrow> 0 \<le> x \<Longrightarrow> loads_le G G'"
proof (induction G ps x rule: add_path.induct)
  case (1 G x)
  then show ?case by (simp add: loads_le_refl)
next
  case (2 G ps x)
  then show ?case by simp
next
  case (3 G u v ps x)
  from "3.prems"(1) obtain G1 where G1: "add_total G u v x = Inr G1" and r: "add_path G1 ps x = Inr G'"
    by (auto split: sum.splits)
  have "loads_le G G1"
    using G1 "3.prems"(2) by (rule add_total_loads_le)
  moreover have "loads_le G1 G'"
    using "3.IH" [OF G1 r "3.prems"(2)] .
  ultimately show ?case
    by (rule loads_le_trans)
qed

lemma AdjustRidership_nonneg:
  assumes "AdjustRidership ons offs tot_on tot_off = Inr (a, b)"
    and "0 \<le> ons" "0 \<le> offs" "0 \<le> tot_on" "0 \<le> tot_off"
  shows "0 \<le> a \<and> 0 \<le> b"
proof (cases "tot_on > tot_off")
  case True
  then have "tot_off \<noteq> 0" and ab: "a = of_int ons"
      "b = of_int offs + of_int (tot_on - tot_off) * (of_int offs / of_int tot_off)"
    using assms(1) by (auto simp: AdjustRidership_def Let_def split: if_splits)
  have "(0::real) \<le> of_int (tot_on - tot_off) * (of_int offs / of_int tot_off)"
    using True assms(3,5) by (intro mult_nonneg_nonneg divide_nonneg_nonneg) auto
  then show ?thesis
    using ab assms(2,3) by simp
next
  case False
  then have "tot_on \<noteq> 0" and ab: "b = of_int offs"
      "a = of_int ons + of_int (tot_off - tot_on) * (of_int ons / of_int tot_on)"
    using assms(1) by (auto simp: AdjustRidership_def Let_def split: if_splits)
  have "(0::real) \<le> of_int (tot_off - tot_on) * (of_int ons / of_int tot_on)"
    using False assms(2,4) by (intro mult_nonneg_nonneg divide_nonneg_nonneg) auto
  then show ?thesis
    using ab assms(2,3) by simp
qed

lemma apportion_loads_le:
  assumes "apportion c i eSource ons offs eTarget st = Inr st'"
    and "0 \<le> ons" "0 \<le> offs" "0 \<le> c_total_on c" "0 \<le> c_total_off c" "0 \<le> s_total st"
  shows "loads_le (s_G st) (s_G st') \<and> 0 \<le> s_total st'"
proof -
  from assms(1) obtain tlinks0 a b u v G1 G2 where
    adj: "AdjustRidership ons offs (c_total_on c) (c_total_off c) = Inr (a, b)"
    and G1: "add_total (s_G st) u v (if i = 0 then s_total st + a + b else s_total st + a) = Inr G1"
    and G2: "add_path G1
        (tl (map (map_of (c_dictAllNodes c))
           (if eTarget \<in> set (if eSource \<notin> set tlinks0 then eSource # tlinks0 else tlinks0)
            then butlast (if eSource \<notin> set tlinks0 then eSource # tlinks0 else tlinks0)
            else (if eSource \<notin> set tlinks0 then eSource # tlinks0 else tlinks0))))
        (if (if i = 0 then s_total st + a + b else s_total st + a) < b
         then (if c_total_on c > c_total_off c then of_int (c_total_on c) else of_int (c_total_off c))
         else (if i = 0 then s_total st + a + b else s_total st + a) - b) = Inr G2"
    and st': "s_G st' = G2"
      "s_total st' = (if (if i = 0 then s_total st + a + b else s_total st + a) < b
         then (if c_total_on c > c_total_off c then of_int (c_total_on c) else of_int (c_total_off c))
         else (if i = 0 then s_total st + a + b else s_total st + a) - b)"
    unfolding apportion_def Let_def
    by (auto split: option.splits sum.splits prod.splits)
  have ab: "0 \<le> a" "0 \<le> b"
    using AdjustRidership_nonneg [OF adj assms(2,3,4,5)] by simp_all
  define t1 where "t1 = (if i = 0 then s_total st + a + b else s_total st + a)"
  have t1: "0 \<le> t1"
    using ab assms(6) by (simp add: t1_def)
  define t2 where "t2 = (if t1 < b
         then (if c_total_on c > c_total_off c then of_int (c_total_on c) else of_int (c_total_off c))
         else t1 - b)"
  have t2: "0 \<le> t2"
    using assms(4,5) by (simp add: t2_def)
  have "loads_le (s_G st) G1"
    using G1 t1 unfolding t1_def by (rule add_total_loads_le)
  moreover have "loads_le G1 G2"
    using G2 t2 unfolding t2_def t1_def by (rule add_path_loads_le)
  ultimately have le: "loads_le (s_G st) G2"
    by (rule loads_le_trans)
  have eq: "s_total st' = t2"
    unfolding t2_def t1_def by (rule st'(2))
  show ?thesis
    using le st'(1) eq t2 by simp
qed

lemma stops_nonneg_lookup:
  "stops_nonneg dictStops \<Longrightarrow> map_of dictStops s = Some (l, ons, offs) \<Longrightarrow> 0 \<le> ons \<and> 0 \<le> offs"
  by (auto simp: stops_nonneg_def list_all_iff dest!: map_of_SomeD)

lemma stop_step_loads_le:
  assumes "stop_step c isn st = Inr (brk, st')" and "env_nonneg c" and "0 \<le> s_total st"
  shows "loads_le (s_G st) (s_G st') \<and> 0 \<le> s_total st'"
proof -
  from assms(1) obtain eSource ons offs where
    src: "map_of (c_dictStops c) (fst (snd isn)) = Some (eSource, ons, offs)"
    by (auto simp: stop_step_def split: option.splits)
  have n: "0 \<le> ons" "0 \<le> offs" "0 \<le> c_total_on c" "0 \<le> c_total_off c"
    using assms(2) stops_nonneg_lookup [OF _ src] by (auto simp: env_nonneg_def)
  have ap: "\<And>eTarget st0. apportion c (fst isn) eSource ons offs eTarget st0 = Inr st' \<Longrightarrow>
      s_G st0 = s_G st \<Longrightarrow> s_total st0 = s_total st \<Longrightarrow>
      loads_le (s_G st) (s_G st') \<and> 0 \<le> s_total st'"
    using apportion_loads_le [OF _ n] assms(3) by metis
  show ?thesis
    using assms(1)
    by (auto simp: stop_step_def src loads_le_refl assms(3)
        split: option.splits sum.splits if_splits prod.splits dest: ap)
qed

lemma stops_loop_loads_le:
  "stops_loop c ps st = Inr st' \<Longrightarrow> env_nonneg c \<Longrightarrow> 0 \<le> s_total st \<Longrightarrow>
   loads_le (s_G st) (s_G st')"
proof (induction ps arbitrary: st)
  case Nil
  then show ?case by (simp add: loads_le_refl)
next
  case (Cons p ps)
  from Cons.prems(1) obtain brk st1 where step: "stop_step c p st = Inr (brk, st1)"
    and rest: "(if brk then Inr st1 else stops_loop c ps st1) = Inr st'"
    by (auto split: sum.splits)
  have 1: "loads_le (s_G st) (s_G st1)" "0 \<le> s_total st1"
    using stop_step_loads_le [OF step Cons.prems(2,3)] by simp_all
  show ?case
  proof (cases brk)
    case True
    then show ?thesis using rest 1 by simp
  next
    case False
    then have "stops_loop c ps st1 = Inr st'" using rest by simp
    from Cons.IH [OF this Cons.prems(2) 1(2)] 1(1) show ?thesis
      by (rule loads_le_trans [rotated])
  qed
qed

lemma directions_loop_loads_le:
  "directions_loop M T A r ls sub dirs st = Inr st' \<Longrightarrow> metrics_nonneg M T \<Longrightarrow>
   loads_le (s_G st) (s_G st')"
proof (induction dirs arbitrary: st)
  case Nil
  then show ?case by (simp add: loads_le_refl)
next
  case (Cons dir dirs)
  from Cons.prems(1) obtain st1 where
    loop: "stops_loop (direction_env M T A r ls sub dir) (stop_pairs (sort (map fst (M dir r))))
             (st\<lparr>s_total := 0\<rparr>) = Inr st1"
    and rest: "directions_loop M T A r ls sub dirs st1 = Inr st'"
    by (auto split: sum.splits)
  have "env_nonneg (direction_env M T A r ls sub dir)"
    using Cons.prems(2) by (simp add: env_nonneg_def direction_env_def metrics_nonneg_def)
  from stops_loop_loads_le [OF loop this]
  have "loads_le (s_G st) (s_G st1)" by simp
  moreover have "loads_le (s_G st1) (s_G st')"
    using rest Cons.prems(2) by (rule Cons.IH)
  ultimately show ?case
    by (rule loads_le_trans)
qed

lemma routes_loop_loads_le:
  "routes_loop D M T A rs st = Inr st' \<Longrightarrow> metrics_nonneg M T \<Longrightarrow>
   loads_le (s_G st) (s_G st')"
proof (induction rs arbitrary: st)
  case Nil
  then show ?case by (simp add: loads_le_refl)
next
  case (Cons r rs)
  from Cons.prems(1) obtain ls rn sub st1 where
    "directions_loop M T A r ls sub dir_keys (st\<lparr>s_dictRouteNodes := rn\<rparr>) = Inr st1"
    and rest: "routes_loop D M T A rs st1 = Inr st'"
    by (auto split: sum.splits prod.splits)
  from directions_loop_loads_le [OF this(1) Cons.prems(2)]
  have "loads_le (s_G st) (s_G st1)" by simp
  moreover have "loads_le (s_G st1) (s_G st')"
    using rest Cons.prems(2) by (rule Cons.IH)
  ultimately show ?case
    by (rule loads_le_trans)
qed

lemma stops_nonneg_dict_set:
  "stops_nonneg d \<Longrightarrow> 0 \<le> ons \<Longrightarrow> 0 \<le> offs \<Longrightarrow> stops_nonneg (dict_set s (l, ons, offs) d)"
  by (induction d) (auto simp: stops_nonneg_def)

lemma add_metro_row_nonneg:
  assumes "add_metro_row (M, T) row = Inr (M', T')" and "metrics_nonneg M T"
    and "0 \<le> m_ons row" "0 \<le> m_offs row"
  shows "metrics_nonneg M' T'"
proof -
  from assms(1) have M': "M' = M(m_dir row := (M (m_dir row))(m_route row :=
          dict_set (m_seq row) (m_tlink row, m_ons row, m_offs row) (M (m_dir row) (m_route row))))"
    and T': "T' = T(m_dir row := (T (m_dir row))(m_route row :=
          (fst (T (m_dir row) (m_route row)) + m_ons row,
           snd (T (m_dir row) (m_route row)) + m_offs row)))"
    by (auto simp: add_metro_row_def Let_def split: if_splits)
  show ?thesis
    unfolding metrics_nonneg_def
  proof (intro allI conjI)
    fix d r
    show "0 \<le> fst (T' d r)"
      using assms(2,3) by (simp add: T' metrics_nonneg_def)
    show "0 \<le> snd (T' d r)"
      using assms(2,4) by (simp add: T' metrics_nonneg_def)
    show "stops_nonneg (M' d r)"
      using assms(2,3,4) by (simp add: M' metrics_nonneg_def stops_nonneg_dict_set)
  qed
qed

lemma RouteDataLookup_loop_nonneg:
  "RouteDataLookup_loop MT rows = Inr (M', T') \<Longrightarrow> metrics_nonneg (fst MT) (snd MT) \<Longrightarrow>
   \<forall>row \<in> set rows. 0 \<le> m_ons row \<and> 0 \<le> m_offs row \<Longrightarrow> metrics_nonneg M' T'"
proof (induction rows arbitrary: MT)
  case Nil
  then show ?case by auto
next
  case (Cons row rows)
  from Cons.prems(1) obtain M1 T1 where 1: "add_metro_row MT row = Inr (M1, T1)"
    and 2: "RouteDataLookup_loop (M1, T1) rows = Inr (M', T')"
    by (auto split: sum.splits)
  have "metrics_nonneg M1 T1"
    using add_metro_row_nonneg [of "fst MT" "snd MT" row M1 T1] 1 Cons.prems(2,3) by simp
  then show ?case
    using Cons.IH [OF 2] Cons.prems(3) by simp
qed

lemma RidershipAlgorithm_loads_le:
  assumes "\<forall>row \<in> set query. 0 \<le> m_ons row \<and> 0 \<le> m_offs row"
    and "RidershipAlgorithm streets routes query = Inr (G, lstBadData, lstMissingLink)"
  shows "loads_le (CreateDirectedMultiGraph streets) G
       \<and> (\<exists>M T. RouteDataLookup query = Inr (M, T) \<and> metrics_nonneg M T)"
proof -
  from assms(2) obtain M T st where
    look: "RouteDataLookup query = Inr (M, T)"
    and loop: "routes_loop (SubgraphDataLookup routes) M T
                 (NodeLookup (CreateDirectedMultiGraph streets))
                 (map fst (SubgraphDataLookup routes))
                 (initial_state (CreateDirectedMultiGraph streets)) = Inr st"
    and G: "G = s_G st"
    by (auto simp: RidershipAlgorithm_def Let_def split: sum.splits prod.splits)
  have "metrics_nonneg (\<lambda>d r. []) (\<lambda>d r. (0, 0))"
    by (simp add: metrics_nonneg_def stops_nonneg_def)
  then have nn: "metrics_nonneg M T"
    using look assms(1) RouteDataLookup_loop_nonneg [of "(\<lambda>d r. [], \<lambda>d r. (0, 0))" query M T]
    by (simp add: RouteDataLookup_def)
  from routes_loop_loads_le [OF loop this] have "loads_le (CreateDirectedMultiGraph streets) G"
    by (simp add: G initial_state_def)
  with look nn show ?thesis
    by blast
qed

text \<open>
  C9. In a run that completes on stop records without negative boardings or alightings
  (their totals sum such counts, and a zero total that is divided by ends the run), no
  edge ever loses load. The graph returned has the edges of the graph built from the
  streets, each with a load at least as large; the stops and totals the run works on
  are not negative; every pass of the loop over the stops that starts with a running
  total of at least 0 returns a graph in which no load is smaller and a running total of
  at least 0, also when the bad-data branch replaces the running total; and every single
  \<^verbatim>\<open>+=\<close> of an increment of at least 0 leaves no load smaller.
\<close>

theorem loads_never_decrease:
  assumes "\<forall>row \<in> set query. 0 \<le> m_ons row \<and> 0 \<le> m_offs row"
    and "RidershipAlgorithm streets routes query = Inr (G, lstBadData, lstMissingLink)"
  shows "loads_le (CreateDirectedMultiGraph streets) G
       \<and> (\<exists>M T. RouteDataLookup query = Inr (M, T) \<and> metrics_nonneg M T)
       \<and> (\<forall>c isn st brk st'.
             env_nonneg c \<and> 0 \<le> s_total st \<and> stop_step c isn st = Inr (brk, st')
               \<longrightarrow> loads_le (s_G st) (s_G st') \<and> 0 \<le> s_total st')
       \<and> (\<forall>G1 u v x G2. 0 \<le> x \<and> add_total G1 u v x = Inr G2 \<longrightarrow> loads_le G1 G2)"
proof -
  have 1: "loads_le (CreateDirectedMultiGraph streets) G
       \<and> (\<exists>M T. RouteDataLookup query = Inr (M, T) \<and> metrics_nonneg M T)"
    using assms by (rule RidershipAlgorithm_loads_le)
  have 2: "\<forall>c isn st brk st'.
             env_nonneg c \<and> 0 \<le> s_total st \<and> stop_step c isn st = Inr (brk, st')
               \<longrightarrow> loads_le (s_G st) (s_G st') \<and> 0 \<le> s_total st'"
    using stop_step_loads_le by blast
  have 3: "\<forall>G1 u v x G2. 0 \<le> x \<and> add_total G1 u v x = Inr G2 \<longrightarrow> loads_le G1 G2"
    using add_total_loads_le by blast
  from 1 2 3 show ?thesis
    by blast
qed

theorem loads_never_decrease_witness:
  "list_all (\<lambda>row. 0 \<le> m_ons row \<and> 0 \<le> m_offs row) clamp_query
   \<and> RidershipAlgorithm clamp_streets clamp_routes clamp_query
         = Inr (s_G clamp_state2, [(9, ''inbound'')], [])
   \<and> loads_le (CreateDirectedMultiGraph clamp_streets) (s_G clamp_state2)
   \<and> env_nonneg clamp_env \<and> 0 \<le> s_total clamp_state1
   \<and> stop_step clamp_env (1, 2, 3) clamp_state1 = Inr (False, clamp_state2)
   \<and> loads_le (s_G clamp_state1) (s_G clamp_state2) \<and> 0 \<le> s_total clamp_state2"
proof -
  have h0: "list_all (\<lambda>row. 0 \<le> m_ons row \<and> 0 \<le> m_offs row) clamp_query"
    by code_simp
  then have h1: "\<forall>row \<in> set clamp_query. 0 \<le> m_ons row \<and> 0 \<le> m_offs row"
    by (simp add: list_all_iff)
  have h2: "RidershipAlgorithm clamp_streets clamp_routes clamp_query
         = Inr (s_G clamp_state2, [(9, ''inbound'')], [])"
    by code_simp
  have h3: "env_nonneg clamp_env"
    by code_simp
  have h4: "0 \<le> s_total clamp_state1"
    by (simp add: clamp_state1_def)
  have h5: "stop_step clamp_env (1, 2, 3) clamp_state1 = Inr (False, clamp_state2)"
    by code_simp
  note inst = loads_never_decrease [OF h1 h2]
  from inst have a: "loads_le (CreateDirectedMultiGraph clamp_streets) (s_G clamp_state2)"
    by blast
  from inst have "\<forall>c isn st brk st'.
             env_nonneg c \<and> 0 \<le> s_total st \<and> stop_step c isn st = Inr (brk, st')
               \<longrightarrow> loads_le (s_G st) (s_G st') \<and> 0 \<le> s_total st'"
    by blast
  with h3 h4 h5 have b: "loads_le (s_G clamp_state1) (s_G clamp_state2) \<and> 0 \<le> s_total clamp_state2"
    by blast
  from h0 h2 h3 h4 h5 a b show ?thesis
    by blast
qed

subsection \<open>The ledger\<close>


































end
